theory Spec2Isabelle
  imports Main "HOL-Library.Word" "HOL-Library.AList" "HOL-Library.Multiset"
begin

section \<open>Data model\<close>

text \<open>
  A shallow embedding of \<^verbatim>\<open>plugins/systemd-sysupdate/gs-plugin-systemd-sysupdate.c\<close>.
  Objects the C code shares by pointer (\<^verbatim>\<open>GsApp\<close>, \<^verbatim>\<open>GTask\<close>, \<^verbatim>\<open>GCancellable\<close>) live in
  stores indexed by references; every callback of the source is a function from the
  plugin state (and the result the main loop hands to the callback) to the new state.
\<close>

type_synonym gint32 = "32 word"
type_synonym guint64 = "64 word"
type_synonym app_ref = nat
type_synonym task_ref = nat
type_synonym cancellable_ref = nat
type_synonym own_cancellable_ref = nat

text \<open>The \<^verbatim>\<open>GsAppState\<close> values the plugin reads or writes.\<close>

datatype gs_app_state =
    GS_APP_STATE_UNKNOWN
  | GS_APP_STATE_INSTALLED
  | GS_APP_STATE_AVAILABLE
  | GS_APP_STATE_AVAILABLE_LOCAL
  | GS_APP_STATE_UPDATABLE
  | GS_APP_STATE_UPDATABLE_LIVE
  | GS_APP_STATE_QUEUED_FOR_INSTALL
  | GS_APP_STATE_INSTALLING
  | GS_APP_STATE_PENDING_INSTALL
  | GS_APP_STATE_DOWNLOADING

text \<open>
  Every \<^verbatim>\<open>GError\<close> the plugin builds itself is one constructor, carrying the arguments
  of its format string; \<open>Remote_Error\<close> is an error handed back by a D-Bus call and
  passed on unchanged; \<open>G_IO_ERROR_CANCELLED\<close> is what \<^verbatim>\<open>GTask\<close> reports for a
  cancelled \<^verbatim>\<open>GCancellable\<close>.
\<close>

datatype g_error =
    Remote_Error string
  | Cannot_Find_Target string
  | Update_Failed_Status gint32
  | Unsupported_Query
  | Cannot_Apply_Without_Download
  | Cannot_Download_Without_Apply
  | G_IO_ERROR_CANCELLED

type_synonym 'a g_result = "g_error + 'a"

text \<open>
  \<^verbatim>\<open>GsApp\<close>, the caller-visible item. Only the fields the orchestration reads or writes
  are kept; \<open>app_progress = None\<close> is \<^verbatim>\<open>GS_APP_PROGRESS_UNKNOWN\<close>.
\<close>

record gs_app =
  app_id :: string
  app_name :: string
  app_version :: string
  app_state :: gs_app_state
  app_state_recover :: gs_app_state
  app_progress :: "nat option"
  app_metadata :: "string \<rightharpoonup> string"
  app_management_plugin :: bool

text \<open>
  Modelled from the spec: the item library (\<^verbatim>\<open>lib/gs-app.c\<close>: \<^verbatim>\<open>gs_app_set_state\<close>,
  \<^verbatim>\<open>gs_app_set_state_recover\<close>, \<^verbatim>\<open>gs_app_set_version\<close>, \<^verbatim>\<open>gs_app_set_progress\<close>,
  the metadata accessors) is not among the sources. Following the spec, setting the
  state of an item stores it, an item remembers the last stable state it was given
  (\<open>Downloading\<close> is the transient one), and the recovery restores that state.
\<close>

definition gs_app_set_state :: "gs_app \<Rightarrow> gs_app_state \<Rightarrow> gs_app" where
  "gs_app_set_state app st =
     app\<lparr>app_state := st,
         app_state_recover := (if st = GS_APP_STATE_DOWNLOADING then app_state_recover app else st)\<rparr>"

definition gs_app_set_state_recover :: "gs_app \<Rightarrow> gs_app" where
  "gs_app_set_state_recover app = app\<lparr>app_state := app_state_recover app\<rparr>"

definition gs_app_set_version :: "gs_app \<Rightarrow> string \<Rightarrow> gs_app" where
  "gs_app_set_version app v = app\<lparr>app_version := v\<rparr>"

definition gs_app_set_progress :: "gs_app \<Rightarrow> nat option \<Rightarrow> gs_app" where
  "gs_app_set_progress app p = app\<lparr>app_progress := p\<rparr>"

definition gs_app_get_metadata_item :: "gs_app \<Rightarrow> string \<Rightarrow> string option" where
  "gs_app_get_metadata_item app key = app_metadata app key"

definition gs_app_set_metadata :: "gs_app \<Rightarrow> string \<Rightarrow> string \<Rightarrow> gs_app" where
  "gs_app_set_metadata app key v = app\<lparr>app_metadata := (app_metadata app)(key \<mapsto> v)\<rparr>"

text \<open>\<^verbatim>\<open>TargetItem\<close>: what \<^verbatim>\<open>systemd-sysupdated\<close> reported about one update target.\<close>

record target_item =
  t_proxy :: bool
  is_valid :: bool
  t_class :: string
  t_name :: string
  object_path :: string
  current_version :: string
  latest_version :: string

definition target_item_new :: "string \<Rightarrow> string \<Rightarrow> string \<Rightarrow> target_item" where
  "target_item_new cls nm path =
     \<lparr>t_proxy = False, is_valid = True, t_class = cls, t_name = nm, object_path = path,
      current_version = '''', latest_version = ''''\<rparr>"

section \<open>Plugin state\<close>

text \<open>
  The remote calls the plugin issues on the bus, in the order it issues them. The reply
  to a call is an event: the main loop runs the call's callback with the result.
\<close>

datatype remote_call =
    Target_Proxy_New string
  | Target_Call_Update string string
  | Job_Proxy_New string
  | Job_Call_Cancel string own_cancellable_ref
  | Manager_Call_List_Targets
  | Target_Call_Get_Version string
  | Target_Call_Check_New string

text \<open>A task returns \<^verbatim>\<open>TRUE\<close> (\<open>Inr ()\<close>) or a \<^verbatim>\<open>GError\<close>.\<close>

type_synonym task_result = "g_error + unit"

text \<open>
  The \<^verbatim>\<open>GTask\<close> of one target update with its \<^verbatim>\<open>GsPluginSystemdSysupdateUpdateTargetData\<close>.
  \<open>ut_parent\<close> is the callback's user data (the update-apps task that started it),
  \<open>ut_returned\<close> lists every \<^verbatim>\<open>g_task_return_*\<close> call made on the task, oldest first,
  and \<open>ut_callback_done\<close> says that the main loop has run the task's callback.
\<close>

record update_target_data =
  ut_app :: app_ref
  ut_job_proxy :: bool
  ut_target_path :: string
  ut_job_path :: "string option"
  ut_cancellable :: "cancellable_ref option"
  ut_parent :: task_ref
  ut_returned :: "task_result list"
  ut_callback_done :: bool

text \<open>The \<^verbatim>\<open>GTask\<close> filed by \<^verbatim>\<open>cancel_job\<close>: its task data (the job path) and its cancellable.\<close>

record cancel_task =
  ct_job_path :: string
  ct_cancellable :: own_cancellable_ref

text \<open>
  The \<^verbatim>\<open>GTask\<close> of \<^verbatim>\<open>update_apps_async\<close> with its \<^verbatim>\<open>GsPluginSystemdSysupdateUpdateAppsData\<close>.
  \<open>ua_has_task_data\<close> says that \<^verbatim>\<open>g_task_set_task_data\<close> has been called: until then the task
  data is \<^verbatim>\<open>NULL\<close>, and \<open>ua_queue\<close> and \<open>ua_app\<close> stand for nothing.
\<close>

record update_apps_data =
  ua_has_task_data :: bool
  ua_queue :: "app_ref list"
  ua_app :: "app_ref option"
  ua_cancellable :: "cancellable_ref option"
  ua_returned :: "task_result list"

text \<open>
  The \<^verbatim>\<open>GTask\<close> of \<^verbatim>\<open>refresh_metadata_async\<close>. The queue and the current target point at
  entries of the target table; the model names them by their key.
\<close>

record refresh_metadata_data =
  rm_queue :: "string list"
  rm_target :: "string option"
  rm_returned :: "task_result list"

text \<open>
  \<^verbatim>\<open>struct _GsPluginSystemdSysupdate\<close>, followed by the objects it works on: the per-plugin
  item cache of \<^verbatim>\<open>GsPlugin\<close>, the stores of items, tasks and cancellables, and the log of
  remote calls. The cancellables the callers pass in (\<open>cancelled\<close>) and the ones
  \<^verbatim>\<open>cancel_job\<close> creates for its own tasks (\<open>own_cancelled\<close>) are different objects and
  are kept apart. The two hash tables the code iterates over are association lists (the
  list order is the iteration order); the other two are maps.
\<close>

record plugin =
  os_pretty_name :: string
  os_version :: string
  target_item_map :: "(string \<times> target_item) list"
  job_task_map :: "(string \<times> task_ref) list"
  job_to_remove_status_map :: "string \<rightharpoonup> gint32"
  job_to_cancel_task_map :: "string \<rightharpoonup> cancel_task"
  is_metadata_refresh_ongoing :: bool
  last_refresh_usecs :: guint64
  plugin_cache :: "string \<rightharpoonup> app_ref"
  app_store :: "app_ref \<Rightarrow> gs_app"
  n_apps :: nat
  update_target_tasks :: "task_ref \<Rightarrow> update_target_data"
  n_update_target_tasks :: nat
  update_apps_tasks :: "task_ref \<Rightarrow> update_apps_data"
  n_update_apps_tasks :: nat
  refresh_tasks :: "task_ref \<Rightarrow> refresh_metadata_data"
  n_refresh_tasks :: nat
  cancelled :: "cancellable_ref \<Rightarrow> bool"
  own_cancelled :: "own_cancellable_ref \<Rightarrow> bool"
  n_own_cancellables :: nat
  remote_calls :: "remote_call list"

text \<open>Writing through a pointer: the item, or the task data, behind a reference.\<close>

definition app_update :: "plugin \<Rightarrow> app_ref \<Rightarrow> (gs_app \<Rightarrow> gs_app) \<Rightarrow> plugin" where
  "app_update self app f = self\<lparr>app_store := (app_store self)(app := f (app_store self app))\<rparr>"

definition update_target_data_update ::
  "plugin \<Rightarrow> task_ref \<Rightarrow> (update_target_data \<Rightarrow> update_target_data) \<Rightarrow> plugin" where
  "update_target_data_update self task f =
     self\<lparr>update_target_tasks := (update_target_tasks self)(task := f (update_target_tasks self task))\<rparr>"

definition update_apps_data_update ::
  "plugin \<Rightarrow> task_ref \<Rightarrow> (update_apps_data \<Rightarrow> update_apps_data) \<Rightarrow> plugin" where
  "update_apps_data_update self task f =
     self\<lparr>update_apps_tasks := (update_apps_tasks self)(task := f (update_apps_tasks self task))\<rparr>"

definition refresh_data_update ::
  "plugin \<Rightarrow> task_ref \<Rightarrow> (refresh_metadata_data \<Rightarrow> refresh_metadata_data) \<Rightarrow> plugin" where
  "refresh_data_update self task f =
     self\<lparr>refresh_tasks := (refresh_tasks self)(task := f (refresh_tasks self task))\<rparr>"

text \<open>\<^verbatim>\<open>g_task_return_boolean\<close>, \<^verbatim>\<open>g_task_return_error\<close>, \<^verbatim>\<open>g_task_return_new_error\<close>.\<close>

definition update_target_return :: "plugin \<Rightarrow> task_ref \<Rightarrow> task_result \<Rightarrow> plugin" where
  "update_target_return self task r =
     update_target_data_update self task (\<lambda>d. d\<lparr>ut_returned := ut_returned d @ [r]\<rparr>)"

definition update_apps_return :: "plugin \<Rightarrow> task_ref \<Rightarrow> task_result \<Rightarrow> plugin" where
  "update_apps_return self task r =
     update_apps_data_update self task (\<lambda>d. d\<lparr>ua_returned := ua_returned d @ [r]\<rparr>)"

definition refresh_return :: "plugin \<Rightarrow> task_ref \<Rightarrow> task_result \<Rightarrow> plugin" where
  "refresh_return self task r =
     refresh_data_update self task (\<lambda>d. d\<lparr>rm_returned := rm_returned d @ [r]\<rparr>)"

definition remote_call_issue :: "plugin \<Rightarrow> remote_call \<Rightarrow> plugin" where
  "remote_call_issue self c = self\<lparr>remote_calls := remote_calls self @ [c]\<rparr>"

definition g_cancellable_is_cancelled :: "plugin \<Rightarrow> cancellable_ref option \<Rightarrow> bool" where
  "g_cancellable_is_cancelled self c = (case c of None \<Rightarrow> False | Some r \<Rightarrow> cancelled self r)"

section \<open>Trackable-item factory\<close>

definition lookup_target_by_app :: "plugin \<Rightarrow> app_ref \<Rightarrow> target_item option" where
  "lookup_target_by_app self app =
     (case gs_app_get_metadata_item (app_store self app) ''SystemdSysupdated::Target'' of
        None \<Rightarrow> None
      | Some key \<Rightarrow> map_of (target_item_map self) key)"

definition create_app_for_target :: "plugin \<Rightarrow> target_item \<Rightarrow> gs_app option" where
  "create_app_for_target self target =
     (case (if t_class target = ''host'' then Some (os_pretty_name self)
            else if t_class target = ''component'' then Some (''component-'' @ t_name target)
            else None) of
        None \<Rightarrow> None
      | Some nm \<Rightarrow>
          Some \<lparr>app_id = ''systemd-sysupdate.'' @ t_name target,
                app_name = nm,
                app_version = ''unknown'',
                app_state = GS_APP_STATE_UNKNOWN,
                app_state_recover = GS_APP_STATE_UNKNOWN,
                app_progress = None,
                app_metadata = [''SystemdSysupdated::Target'' \<mapsto> t_name target,
                                ''SystemdSysupdated::Class'' \<mapsto> t_class target],
                app_management_plugin = False\<rparr>)"

definition get_or_create_app_for_target :: "plugin \<Rightarrow> target_item \<Rightarrow> app_ref option \<times> plugin" where
  "get_or_create_app_for_target self target =
     (let key = t_name target in
      case plugin_cache self key of
        Some app \<Rightarrow> (Some app, self)
      | None \<Rightarrow>
          (case create_app_for_target self target of
             None \<Rightarrow> (None, self)
           | Some new_app \<Rightarrow>
               (let app = n_apps self in
                (Some app,
                 self\<lparr>app_store := (app_store self)(app := new_app\<lparr>app_management_plugin := True\<rparr>),
                      n_apps := Suc app,
                      plugin_cache := (plugin_cache self)(key \<mapsto> app)\<rparr>))))"

definition update_app_for_target :: "plugin \<Rightarrow> gs_app \<Rightarrow> target_item \<Rightarrow> gs_app" where
  "update_app_for_target self app target =
     (if t_class target = ''host'' then
        (let is_available = (latest_version target \<noteq> '''') in
         if is_available
         then gs_app_set_state (gs_app_set_version app (latest_version target)) GS_APP_STATE_AVAILABLE
         else gs_app_set_state (gs_app_set_version app (os_version self)) GS_APP_STATE_UNKNOWN)
      else if t_class target = ''component'' then
        (let is_available = (latest_version target \<noteq> '''');
             is_installed = (current_version target \<noteq> '''') in
         if is_available then
           (if is_installed
            then gs_app_set_state (gs_app_set_version app (latest_version target)) GS_APP_STATE_UPDATABLE
            else gs_app_set_state (gs_app_set_version app (latest_version target)) GS_APP_STATE_AVAILABLE)
         else
           (if is_installed
            then gs_app_set_state (gs_app_set_version app (current_version target)) GS_APP_STATE_INSTALLED
            else gs_app_set_state (gs_app_set_version app '''') GS_APP_STATE_UNKNOWN))
      else app)"

section \<open>Job orchestrator: removal and cancellation\<close>

text \<open>\<^verbatim>\<open>gs_plugin_systemd_sysupdate_cancel_job_revoke\<close>: cancel the cancellable of a filed cancel task.\<close>

definition cancel_job_revoke :: "plugin \<Rightarrow> string \<Rightarrow> plugin" where
  "cancel_job_revoke self job_path =
     (case job_to_cancel_task_map self job_path of
        None \<Rightarrow> self
      | Some task \<Rightarrow> self\<lparr>own_cancelled := (own_cancelled self)(ct_cancellable task := True)\<rparr>)"

definition remove_job_revoke :: "plugin \<Rightarrow> string \<Rightarrow> plugin" where
  "remove_job_revoke self job_path =
     self\<lparr>job_to_remove_status_map := (job_to_remove_status_map self)(job_path := None)\<rparr>"

text \<open>\<^verbatim>\<open>gs_plugin_systemd_sysupdate_remove_job_apply\<close>.\<close>

definition remove_job_apply :: "plugin \<Rightarrow> task_ref \<Rightarrow> string \<Rightarrow> gint32 \<Rightarrow> plugin" where
  "remove_job_apply self task job_path job_status =
     (let data = update_target_tasks self task;
          target_class = gs_app_get_metadata_item (app_store self (ut_app data)) ''SystemdSysupdated::Class'';
          target_is_host = (target_class = Some ''host'');
          s1 = (if job_status = 0 then
                  app_update self (ut_app data) (\<lambda>app.
                    if target_is_host
                    then gs_app_set_state (gs_app_set_progress app None) GS_APP_STATE_PENDING_INSTALL
                    else gs_app_set_state (gs_app_set_progress app None) GS_APP_STATE_INSTALLED)
                else
                  app_update self (ut_app data) (\<lambda>app.
                    if target_is_host
                    then gs_app_set_state (gs_app_set_progress app None) GS_APP_STATE_AVAILABLE
                    else gs_app_set_state_recover (gs_app_set_progress app None)));
          s2 = s1\<lparr>job_task_map := AList.delete job_path (job_task_map s1),
                  job_to_remove_status_map := (job_to_remove_status_map s1)(job_path := None)\<rparr>;
          s3 = cancel_job_revoke s2 job_path
      in if job_status = 0
         then update_target_return s3 task (Inr ())
         else update_target_return s3 task (Inl (Update_Failed_Status job_status)))"

text \<open>
  \<^verbatim>\<open>gs_plugin_systemd_sysupdate_remove_job\<close>, the handler of the \<^verbatim>\<open>JobRemoved\<close> signal
  (\<^verbatim>\<open>manager_proxy_job_removed_cb\<close> passes the path and the status on).
\<close>

definition remove_job :: "plugin \<Rightarrow> string \<Rightarrow> gint32 \<Rightarrow> plugin" where
  "remove_job self job_path job_status =
     (if job_to_remove_status_map self job_path \<noteq> None then self
      else
        (case map_of (job_task_map self) job_path of
           None \<Rightarrow>
             cancel_job_revoke
               (self\<lparr>job_to_remove_status_map := (job_to_remove_status_map self)(job_path \<mapsto> job_status)\<rparr>)
               job_path
         | Some task \<Rightarrow> remove_job_apply self task job_path job_status))"

text \<open>
  \<^verbatim>\<open>gs_plugin_systemd_sysupdate_cancel_job\<close>. The job path is found by iterating over the
  active-job table; the fresh \<^verbatim>\<open>GCancellable\<close> is the next free reference.
\<close>

definition cancel_job :: "plugin \<Rightarrow> app_ref \<Rightarrow> plugin" where
  "cancel_job self app =
     (case lookup_target_by_app self app of
        None \<Rightarrow> self
      | Some target \<Rightarrow>
          (case find (\<lambda>(key, val). ut_target_path (update_target_tasks self val) = object_path target)
                  (job_task_map self) of
             None \<Rightarrow> self
           | Some (job_path, _) \<Rightarrow>
               if job_to_cancel_task_map self job_path \<noteq> None then self
               else if job_to_remove_status_map self job_path \<noteq> None then self
               else
                 (let cancellable = n_own_cancellables self;
                      s1 = self\<lparr>own_cancelled := (own_cancelled self)(cancellable := False),
                                n_own_cancellables := Suc cancellable\<rparr>;
                      task = \<lparr>ct_job_path = job_path, ct_cancellable = cancellable\<rparr>
                  in case map_of (job_task_map s1) job_path of
                       None \<Rightarrow>
                         s1\<lparr>job_to_cancel_task_map := (job_to_cancel_task_map s1)(job_path \<mapsto> task)\<rparr>
                     | Some update_task \<Rightarrow>
                         remote_call_issue s1 (Job_Call_Cancel job_path cancellable))))"

text \<open>
  \<^verbatim>\<open>gs_plugin_systemd_sysupdate_cancel_job_cancel_cb\<close> followed by the cancel task's own
  callback \<^verbatim>\<open>gs_plugin_systemd_sysupdate_cancel_job_cb\<close>: whatever the reply to
  \<^verbatim>\<open>Job.Cancel()\<close> was, the task returns and its record leaves the table; the outcome
  is only logged.
\<close>

definition cancel_job_cancel_cb :: "plugin \<Rightarrow> cancel_task \<Rightarrow> task_result \<Rightarrow> plugin" where
  "cancel_job_cancel_cb self task r =
     self\<lparr>job_to_cancel_task_map := (job_to_cancel_task_map self)(ct_job_path task := None)\<rparr>"

section \<open>Job orchestrator: starting an update\<close>

text \<open>\<^verbatim>\<open>gs_plugin_systemd_sysupdate_update_target_notify_progress_cb\<close>, with the progress read from the job proxy.\<close>

definition update_target_notify_progress_cb :: "plugin \<Rightarrow> task_ref \<Rightarrow> nat \<Rightarrow> plugin" where
  "update_target_notify_progress_cb self task progress =
     app_update self (ut_app (update_target_tasks self task)) (\<lambda>app.
       gs_app_set_progress (gs_app_set_state app GS_APP_STATE_DOWNLOADING) (Some progress))"

text \<open>
  \<^verbatim>\<open>gs_plugin_systemd_sysupdate_update_target_async\<close>; \<open>parent\<close> is the user data of the
  callback, the update-apps task that asked for the update.
\<close>

definition update_target_async ::
  "plugin \<Rightarrow> app_ref \<Rightarrow> string \<Rightarrow> cancellable_ref option \<Rightarrow> task_ref \<Rightarrow> plugin" where
  "update_target_async self app target_path cancellable parent =
     (let task = n_update_target_tasks self;
          data = \<lparr>ut_app = app, ut_job_proxy = False, ut_target_path = target_path,
                  ut_job_path = None, ut_cancellable = cancellable, ut_parent = parent,
                  ut_returned = [], ut_callback_done = False\<rparr>;
          s1 = self\<lparr>update_target_tasks := (update_target_tasks self)(task := data),
                    n_update_target_tasks := Suc task\<rparr>
      in case lookup_target_by_app s1 app of
           None \<Rightarrow> update_target_return s1 task (Inl (Cannot_Find_Target (app_name (app_store s1 app))))
         | Some target \<Rightarrow> remote_call_issue s1 (Target_Proxy_New target_path))"

definition update_target_proxy_new_cb :: "plugin \<Rightarrow> task_ref \<Rightarrow> task_result \<Rightarrow> plugin" where
  "update_target_proxy_new_cb self task r =
     (case r of
        Inl local_error \<Rightarrow> update_target_return self task (Inl local_error)
      | Inr _ \<Rightarrow>
          remote_call_issue self
            (Target_Call_Update (ut_target_path (update_target_tasks self task)) ''''))"

definition update_target_update_cb :: "plugin \<Rightarrow> task_ref \<Rightarrow> g_error + string \<Rightarrow> plugin" where
  "update_target_update_cb self task r =
     (case r of
        Inl local_error \<Rightarrow> update_target_return self task (Inl local_error)
      | Inr job_path \<Rightarrow>
          remote_call_issue
            (update_target_data_update self task (\<lambda>d. d\<lparr>ut_job_path := Some job_path\<rparr>))
            (Job_Proxy_New job_path))"

text \<open>
  \<^verbatim>\<open>gs_plugin_systemd_sysupdate_update_target_job_proxy_new_cb\<close>. A successful reply
  carries the progress the new proxy reports. The job path is set by
  \<^verbatim>\<open>update_target_update_cb\<close> before the proxy is asked for; the callback is not run on a
  task without one.
\<close>

definition update_target_job_proxy_new_cb :: "plugin \<Rightarrow> task_ref \<Rightarrow> g_error + nat \<Rightarrow> plugin" where
  "update_target_job_proxy_new_cb self task r =
     (let data = update_target_tasks self task in
      case ut_job_path data of
        None \<Rightarrow> self
      | Some job_path \<Rightarrow>
          (case r of
             Inl local_error \<Rightarrow>
               cancel_job_revoke
                 (remove_job_revoke (update_target_return self task (Inl local_error)) job_path)
                 job_path
           | Inr progress \<Rightarrow>
               (let s1 = update_target_data_update self task (\<lambda>d. d\<lparr>ut_job_proxy := True\<rparr>);
                    s2 = update_target_notify_progress_cb s1 task progress;
                    s3 = s2\<lparr>job_task_map := AList.update job_path task (job_task_map s2)\<rparr>
                in case job_to_remove_status_map s3 job_path of
                     Some job_status \<Rightarrow> remove_job_apply s3 task job_path job_status
                   | None \<Rightarrow>
                       (case job_to_cancel_task_map s3 job_path of
                          Some cancel_task \<Rightarrow>
                            remote_call_issue s3 (Job_Call_Cancel job_path (ct_cancellable cancel_task))
                        | None \<Rightarrow>
                            if g_cancellable_is_cancelled s3 (ut_cancellable data)
                            then cancel_job s3 (ut_app data)
                            else s3))))"

text \<open>
  \<^verbatim>\<open>gs_plugin_systemd_sysupdate_update_target_finish\<close>, that is \<^verbatim>\<open>g_task_propagate_boolean\<close>:
  a task whose cancellable is cancelled reports the cancellation, whatever it returned;
  otherwise the first value returned counts. \<open>None\<close>: the task has not returned.
\<close>

definition update_target_finish :: "plugin \<Rightarrow> task_ref \<Rightarrow> task_result option" where
  "update_target_finish self task =
     (let data = update_target_tasks self task in
      case ut_returned data of
        [] \<Rightarrow> None
      | r # _ \<Rightarrow>
          if g_cancellable_is_cancelled self (ut_cancellable data)
          then Some (Inl G_IO_ERROR_CANCELLED)
          else Some r)"

section \<open>Batch update driver\<close>

text \<open>\<^verbatim>\<open>GsPluginUpdateAppsFlags\<close>: a set of flags; \<^verbatim>\<open>flags & F\<close> is membership.\<close>

datatype gs_plugin_update_apps_flag =
    GS_PLUGIN_UPDATE_APPS_FLAGS_INTERACTIVE
  | GS_PLUGIN_UPDATE_APPS_FLAGS_NO_DOWNLOAD
  | GS_PLUGIN_UPDATE_APPS_FLAGS_NO_APPLY

text \<open>\<^verbatim>\<open>gs_plugin_systemd_sysupdate_update_apps_iter\<close>.\<close>

definition update_apps_iter :: "plugin \<Rightarrow> task_ref \<Rightarrow> plugin" where
  "update_apps_iter self task =
     (case ua_queue (update_apps_tasks self task) of
        [] \<Rightarrow>
          update_apps_return
            (update_apps_data_update self task (\<lambda>d. d\<lparr>ua_app := None\<rparr>)) task (Inr ())
      | app # rest \<Rightarrow>
          (let s1 = update_apps_data_update self task (\<lambda>d. d\<lparr>ua_queue := rest, ua_app := Some app\<rparr>)
           in case lookup_target_by_app s1 app of
                None \<Rightarrow>
                  update_apps_return s1 task (Inl (Cannot_Find_Target (app_name (app_store s1 app))))
              | Some target \<Rightarrow>
                  update_target_async s1 app (object_path target)
                    (ua_cancellable (update_apps_tasks s1 task)) task))"

text \<open>
  \<^verbatim>\<open>gs_plugin_systemd_sysupdate_update_apps_update_target_cb\<close>, the callback of an
  update-target task: the main loop runs it once, after the task has returned.
\<close>

definition update_apps_update_target_cb :: "plugin \<Rightarrow> task_ref \<Rightarrow> plugin" where
  "update_apps_update_target_cb self result_task =
     (let data = update_target_tasks self result_task;
          task = ut_parent data in
      if ut_callback_done data then self
      else
        (case update_target_finish self result_task of
           None \<Rightarrow> self
         | Some r \<Rightarrow>
             (let s1 = update_target_data_update self result_task (\<lambda>d. d\<lparr>ut_callback_done := True\<rparr>)
              in case r of
                   Inl local_error \<Rightarrow> update_apps_return s1 task (Inl local_error)
                 | Inr _ \<Rightarrow> update_apps_iter s1 task)))"

text \<open>
  The queue \<^verbatim>\<open>update_apps_async\<close> builds: items of other plugins and items in a state
  without a source are skipped, \<^verbatim>\<open>component-devel\<close> is pushed to the tail, every other
  item to the head.
\<close>

definition update_apps_queue :: "plugin \<Rightarrow> app_ref list \<Rightarrow> app_ref list" where
  "update_apps_queue self apps =
     foldl (\<lambda>queue app.
        if \<not> app_management_plugin (app_store self app) then queue
        else if app_state (app_store self app) \<noteq> GS_APP_STATE_AVAILABLE \<and>
                app_state (app_store self app) \<noteq> GS_APP_STATE_AVAILABLE_LOCAL \<and>
                app_state (app_store self app) \<noteq> GS_APP_STATE_UPDATABLE \<and>
                app_state (app_store self app) \<noteq> GS_APP_STATE_UPDATABLE_LIVE \<and>
                app_state (app_store self app) \<noteq> GS_APP_STATE_QUEUED_FOR_INSTALL then queue
        else if app_name (app_store self app) = ''component-devel'' then queue @ [app]
        else app # queue) [] apps"

text \<open>
  \<^verbatim>\<open>gs_plugin_systemd_sysupdate_update_apps_async\<close>. The new task is the next free
  reference. \<^verbatim>\<open>g_cancellable_connect\<close> runs the handler at once when the cancellable is
  already cancelled; \<^verbatim>\<open>update_apps_cancelled_cb\<close> then reads task data that is not set
  yet, a null dereference: the result \<open>None\<close>.
\<close>

definition update_apps_async ::
  "plugin \<Rightarrow> app_ref list \<Rightarrow> gs_plugin_update_apps_flag set \<Rightarrow> cancellable_ref option \<Rightarrow> plugin option" where
  "update_apps_async self apps flags cancellable =
     (let task = n_update_apps_tasks self;
          s1 = self\<lparr>update_apps_tasks := (update_apps_tasks self)
                       (task := \<lparr>ua_has_task_data = False, ua_queue = [], ua_app = None,
                                  ua_cancellable = cancellable, ua_returned = []\<rparr>),
                    n_update_apps_tasks := Suc task\<rparr>
      in if GS_PLUGIN_UPDATE_APPS_FLAGS_NO_DOWNLOAD \<in> flags \<and>
            GS_PLUGIN_UPDATE_APPS_FLAGS_NO_APPLY \<in> flags
         then Some (update_apps_return s1 task (Inr ()))
         else if GS_PLUGIN_UPDATE_APPS_FLAGS_NO_DOWNLOAD \<in> flags
         then Some (update_apps_return s1 task (Inl Cannot_Apply_Without_Download))
         else if GS_PLUGIN_UPDATE_APPS_FLAGS_NO_APPLY \<in> flags
         then Some (update_apps_return s1 task (Inl Cannot_Download_Without_Apply))
         else if g_cancellable_is_cancelled s1 cancellable then None
         else
           Some (update_apps_iter
                   (update_apps_data_update s1 task
                      (\<lambda>d. d\<lparr>ua_has_task_data := True, ua_queue := update_apps_queue s1 apps\<rparr>))
                   task))"

text \<open>
  \<^verbatim>\<open>update_apps_cancelled_cb\<close>, the handler connected to the caller's cancellable, run when
  the cancellable is cancelled while the batch is under way (\<open>ua_app\<close> is set).
\<close>

definition update_apps_cancelled_cb :: "plugin \<Rightarrow> task_ref \<Rightarrow> plugin" where
  "update_apps_cancelled_cb self task =
     (let data = update_apps_tasks self task in
      if \<not> g_cancellable_is_cancelled self (ua_cancellable data) then self
      else case ua_app data of
             None \<Rightarrow> self
           | Some app \<Rightarrow> cancel_job self app)"

text \<open>
  \<^verbatim>\<open>gs_plugin_systemd_sysupdate_update_apps_finish\<close>, the other half of the operation: the
  caller runs it once the task has returned. With a cancellable it reads
  \<^verbatim>\<open>data->cancelled_id\<close> to disconnect the handler, a null dereference when the task data
  was never set; then \<^verbatim>\<open>g_task_propagate_boolean\<close> reports the cancellation if the
  cancellable is cancelled and the first value returned otherwise (\<open>None\<close>: the task has
  not returned). It changes nothing of the plugin.
\<close>

datatype fault = Null_Pointer_Dereference

definition update_apps_finish :: "plugin \<Rightarrow> task_ref \<Rightarrow> fault + task_result option" where
  "update_apps_finish self task =
     (let data = update_apps_tasks self task in
      if ua_cancellable data \<noteq> None \<and> \<not> ua_has_task_data data then Inl Null_Pointer_Dereference
      else
        Inr (case ua_returned data of
               [] \<Rightarrow> None
             | r # _ \<Rightarrow>
                 if g_cancellable_is_cancelled self (ua_cancellable data)
                 then Some (Inl G_IO_ERROR_CANCELLED)
                 else Some r))"

section \<open>Listing items\<close>

datatype gs_app_query_tristate =
    GS_APP_QUERY_TRISTATE_UNSET
  | GS_APP_QUERY_TRISTATE_FALSE
  | GS_APP_QUERY_TRISTATE_TRUE

text \<open>
  \<^verbatim>\<open>GsAppQuery\<close>: the three properties the plugin reads, and the number of properties set
  (\<^verbatim>\<open>gs_app_query_get_n_properties_set\<close>), which counts the other properties of a query too.
\<close>

record gs_app_query =
  q_is_installed :: gs_app_query_tristate
  q_is_for_update :: gs_app_query_tristate
  q_keywords :: "string list option"
  q_n_properties_set :: nat

text \<open>\<^verbatim>\<open>gs_app_list_add\<close>: an item already in the list is not added again.\<close>

definition gs_app_list_add :: "app_ref list \<Rightarrow> app_ref \<Rightarrow> app_ref list" where
  "gs_app_list_add list app = (if app \<in> set list then list else list @ [app])"

text \<open>The loop of \<^verbatim>\<open>gs_plugin_systemd_sysupdate_list_apps_async\<close> over the target table.\<close>

fun list_apps_loop ::
  "gs_app_query \<Rightarrow> (string \<times> target_item) list \<Rightarrow> plugin \<Rightarrow> app_ref list \<Rightarrow> plugin \<times> app_ref list" where
  "list_apps_loop query [] self list = (self, list)"
| "list_apps_loop query ((key, target) # rest) self list =
     (case get_or_create_app_for_target self target of
        (None, s1) \<Rightarrow> list_apps_loop query rest s1 list
      | (Some app, s1) \<Rightarrow>
          if t_class target = ''host'' then list_apps_loop query rest s1 list
          else if (case q_keywords query of
                     None \<Rightarrow> False
                   | Some keywords \<Rightarrow>
                       ''sysupdate'' \<in> set keywords \<or> t_class target \<in> set keywords \<or>
                       t_name target \<in> set keywords)
          then list_apps_loop query rest s1 (gs_app_list_add list app)
          else if q_is_for_update query = GS_APP_QUERY_TRISTATE_TRUE
          then list_apps_loop query rest s1 (gs_app_list_add list app)
          else if q_is_installed query \<noteq> GS_APP_QUERY_TRISTATE_UNSET \<and>
                  ((q_is_installed query = GS_APP_QUERY_TRISTATE_FALSE \<and> current_version target = '''') \<or>
                   (q_is_installed query = GS_APP_QUERY_TRISTATE_TRUE \<and> current_version target \<noteq> ''''))
          then list_apps_loop query rest s1 (gs_app_list_add list app)
          else list_apps_loop query rest s1 list)"

text \<open>
  \<^verbatim>\<open>gs_plugin_systemd_sysupdate_list_apps_async\<close>: the task returns at once, with the list
  or with the error; \<open>None\<close> is a \<^verbatim>\<open>NULL\<close> query.
\<close>

definition list_apps_async :: "plugin \<Rightarrow> gs_app_query option \<Rightarrow> plugin \<times> (g_error + app_ref list)" where
  "list_apps_async self query =
     (case query of
        None \<Rightarrow> (self, Inl Unsupported_Query)
      | Some q \<Rightarrow>
          if (q_is_installed q = GS_APP_QUERY_TRISTATE_UNSET \<and>
              q_is_for_update q = GS_APP_QUERY_TRISTATE_UNSET \<and>
              q_keywords q = None) \<or>
             q_n_properties_set q \<noteq> 1
          then (self, Inl Unsupported_Query)
          else (case list_apps_loop q (target_item_map self) self [] of
                  (s1, list) \<Rightarrow> (s1, Inr list)))"

text \<open>The loop of \<^verbatim>\<open>gs_plugin_systemd_sysupdate_list_distro_upgrades_async\<close>.\<close>

fun list_distro_upgrades_loop ::
  "(string \<times> target_item) list \<Rightarrow> plugin \<Rightarrow> app_ref list \<Rightarrow> plugin \<times> app_ref list" where
  "list_distro_upgrades_loop [] self list = (self, list)"
| "list_distro_upgrades_loop ((key, target) # rest) self list =
     (if t_class target \<noteq> ''host'' then list_distro_upgrades_loop rest self list
      else if latest_version target = '''' then list_distro_upgrades_loop rest self list
      else
        (case get_or_create_app_for_target self target of
           (None, s1) \<Rightarrow> list_distro_upgrades_loop rest s1 list
         | (Some app, s1) \<Rightarrow> list_distro_upgrades_loop rest s1 (gs_app_list_add list app)))"

definition list_distro_upgrades_async :: "plugin \<Rightarrow> plugin \<times> app_ref list" where
  "list_distro_upgrades_async self = list_distro_upgrades_loop (target_item_map self) self []"

section \<open>Metadata refresh pipeline\<close>

text \<open>
  \<^verbatim>\<open>gs_plugin_systemd_sysupdate_refresh_metadata_async\<close>. \<^verbatim>\<open>g_get_monotonic_time ()\<close> is
  read twice: \<open>now_check\<close> for the age of the cache, \<open>now_start\<close> when the refresh starts.
  All arithmetic is on \<^verbatim>\<open>guint64\<close> and wraps around; \<^verbatim>\<open>G_USEC_PER_SEC\<close> is 1000000.
\<close>

definition refresh_metadata_async :: "plugin \<Rightarrow> guint64 \<Rightarrow> guint64 \<Rightarrow> guint64 \<Rightarrow> plugin" where
  "refresh_metadata_async self cache_age_secs now_check now_start =
     (let task = n_refresh_tasks self;
          s1 = self\<lparr>refresh_tasks := (refresh_tasks self)
                       (task := \<lparr>rm_queue = [], rm_target = None, rm_returned = []\<rparr>),
                    n_refresh_tasks := Suc task\<rparr>;
          delta_usecs = now_check - last_refresh_usecs s1
      in if is_metadata_refresh_ongoing s1 \<or>
            (0 < cache_age_secs \<and> delta_usecs < cache_age_secs * 1000000)
         then refresh_return s1 task (Inr ())
         else remote_call_issue
                (s1\<lparr>is_metadata_refresh_ongoing := True, last_refresh_usecs := now_start\<rparr>)
                Manager_Call_List_Targets)"

text \<open>\<^verbatim>\<open>gs_plugin_systemd_sysupdate_refresh_metadata_iter\<close>.\<close>

definition refresh_metadata_iter :: "plugin \<Rightarrow> task_ref \<Rightarrow> plugin" where
  "refresh_metadata_iter self task =
     (case rm_queue (refresh_tasks self task) of
        [] \<Rightarrow>
          refresh_return (refresh_data_update self task (\<lambda>d. d\<lparr>rm_target := None\<rparr>)) task (Inr ())
      | key # rest \<Rightarrow>
          (let s1 = refresh_data_update self task (\<lambda>d. d\<lparr>rm_queue := rest, rm_target := Some key\<rparr>)
           in case map_of (target_item_map s1) key of
                None \<Rightarrow> s1
              | Some target \<Rightarrow> remote_call_issue s1 (Target_Proxy_New (object_path target))))"

text \<open>
  The steps of \<^verbatim>\<open>gs_plugin_systemd_sysupdate_refresh_metadata_list_targets_cb\<close> on the
  target table and the item cache, for a listing of \<open>(class, name, object path)\<close> tuples.
\<close>

definition mark_all_invalid :: "(string \<times> target_item) list \<Rightarrow> (string \<times> target_item) list" where
  "mark_all_invalid tm = map (\<lambda>(key, target). (key, target\<lparr>is_valid := False\<rparr>)) tm"

definition insert_listed ::
  "(string \<times> string \<times> string) list \<Rightarrow> (string \<times> target_item) list \<Rightarrow> (string \<times> target_item) list" where
  "insert_listed listing tm =
     foldl (\<lambda>m (cls, nm, path). AList.update nm (target_item_new cls nm path) m) tm listing"

definition cache_remove_invalid ::
  "(string \<times> target_item) list \<Rightarrow> (string \<rightharpoonup> app_ref) \<Rightarrow> (string \<rightharpoonup> app_ref)" where
  "cache_remove_invalid tm cache =
     foldl (\<lambda>c (key, target). if \<not> is_valid target then c(key := None) else c) cache tm"

definition check_to_be_removed :: "string \<times> target_item \<Rightarrow> bool" where
  "check_to_be_removed kv = (\<not> is_valid (snd kv))"

definition host_first_queue :: "(string \<times> target_item) list \<Rightarrow> string list" where
  "host_first_queue tm =
     foldl (\<lambda>queue (key, target). if t_class target = ''host'' then key # queue else queue @ [key]) [] tm"

definition refresh_metadata_list_targets_cb ::
  "plugin \<Rightarrow> task_ref \<Rightarrow> g_error + (string \<times> string \<times> string) list \<Rightarrow> plugin" where
  "refresh_metadata_list_targets_cb self task r =
     (case r of
        Inl local_error \<Rightarrow> refresh_return self task (Inl local_error)
      | Inr ret_targets \<Rightarrow>
          (let tm1 = mark_all_invalid (target_item_map self);
               tm2 = insert_listed ret_targets tm1;
               cache1 = cache_remove_invalid tm2 (plugin_cache self);
               tm3 = filter (\<lambda>kv. \<not> check_to_be_removed kv) tm2;
               s1 = self\<lparr>target_item_map := tm3, plugin_cache := cache1\<rparr>;
               s2 = refresh_data_update s1 task (\<lambda>d. d\<lparr>rm_queue := host_first_queue tm3\<rparr>)
           in refresh_metadata_iter s2 task))"

text \<open>Writing a field of the target the task is visiting (\<^verbatim>\<open>data->target\<close>).\<close>

definition target_update :: "plugin \<Rightarrow> string \<Rightarrow> (target_item \<Rightarrow> target_item) \<Rightarrow> plugin" where
  "target_update self key f =
     self\<lparr>target_item_map := map (\<lambda>(k, target). if k = key then (k, f target) else (k, target))
                                 (target_item_map self)\<rparr>"

definition refresh_metadata_proxy_new_cb :: "plugin \<Rightarrow> task_ref \<Rightarrow> task_result \<Rightarrow> plugin" where
  "refresh_metadata_proxy_new_cb self task r =
     (case r of
        Inl local_error \<Rightarrow> refresh_return self task (Inl local_error)
      | Inr _ \<Rightarrow>
          (case rm_target (refresh_tasks self task) of
             None \<Rightarrow> self
           | Some key \<Rightarrow>
               (let s1 = target_update self key (\<lambda>t. t\<lparr>t_proxy := True\<rparr>)
                in case map_of (target_item_map s1) key of
                     None \<Rightarrow> s1
                   | Some target \<Rightarrow> remote_call_issue s1 (Target_Call_Get_Version (object_path target)))))"

definition refresh_metadata_get_version_cb :: "plugin \<Rightarrow> task_ref \<Rightarrow> g_error + string \<Rightarrow> plugin" where
  "refresh_metadata_get_version_cb self task r =
     (case r of
        Inl local_error \<Rightarrow> refresh_return self task (Inl local_error)
      | Inr version \<Rightarrow>
          (case rm_target (refresh_tasks self task) of
             None \<Rightarrow> self
           | Some key \<Rightarrow>
               (let s1 = target_update self key (\<lambda>t. t\<lparr>current_version := version\<rparr>)
                in case map_of (target_item_map s1) key of
                     None \<Rightarrow> s1
                   | Some target \<Rightarrow> remote_call_issue s1 (Target_Call_Check_New (object_path target)))))"

definition refresh_metadata_check_new_cb :: "plugin \<Rightarrow> task_ref \<Rightarrow> g_error + string \<Rightarrow> plugin" where
  "refresh_metadata_check_new_cb self task r =
     (case r of
        Inl local_error \<Rightarrow> refresh_return self task (Inl local_error)
      | Inr version \<Rightarrow>
          (case rm_target (refresh_tasks self task) of
             None \<Rightarrow> self
           | Some key \<Rightarrow>
               (let s1 = target_update self key (\<lambda>t. t\<lparr>latest_version := version\<rparr>)
                in case map_of (target_item_map s1) key of
                     None \<Rightarrow> s1
                   | Some target \<Rightarrow>
                       (case get_or_create_app_for_target s1 target of
                          (None, s2) \<Rightarrow> refresh_metadata_iter s2 task
                        | (Some app, s2) \<Rightarrow>
                            refresh_metadata_iter
                              (app_update s2 app (\<lambda>a. update_app_for_target s2 a target)) task))))"

text \<open>\<^verbatim>\<open>gs_plugin_systemd_sysupdate_refresh_metadata_finish\<close>: the caller of any refresh task, also one that was gated, clears the flag.\<close>

definition refresh_metadata_finish :: "plugin \<Rightarrow> task_ref \<Rightarrow> plugin \<times> task_result option" where
  "refresh_metadata_finish self task =
     (self\<lparr>is_metadata_refresh_ongoing := False\<rparr>,
      case rm_returned (refresh_tasks self task) of [] \<Rightarrow> None | r # _ \<Rightarrow> Some r)"

section \<open>Set-up and the event loop\<close>

text \<open>What the stores hold at references that are not allocated yet.\<close>

definition unallocated_app :: gs_app where
  "unallocated_app =
     \<lparr>app_id = '''', app_name = '''', app_version = '''', app_state = GS_APP_STATE_UNKNOWN,
      app_state_recover = GS_APP_STATE_UNKNOWN, app_progress = None, app_metadata = Map.empty,
      app_management_plugin = False\<rparr>"

definition unallocated_update_target :: update_target_data where
  "unallocated_update_target =
     \<lparr>ut_app = 0, ut_job_proxy = False, ut_target_path = '''', ut_job_path = None,
      ut_cancellable = None, ut_parent = 0, ut_returned = [], ut_callback_done = False\<rparr>"

definition unallocated_update_apps :: update_apps_data where
  "unallocated_update_apps =
     \<lparr>ua_has_task_data = False, ua_queue = [], ua_app = None, ua_cancellable = None, ua_returned = []\<rparr>"

definition unallocated_refresh :: refresh_metadata_data where
  "unallocated_refresh = \<lparr>rm_queue = [], rm_target = None, rm_returned = []\<rparr>"

text \<open>
  The plugin as \<^verbatim>\<open>gs_plugin_systemd_sysupdate_setup_proxy_new_cb\<close> leaves it: the names read
  from os-release (\<^verbatim>\<open>"unknown"\<close> for a missing one), empty tables, no refresh yet.
\<close>

definition plugin_new :: "string option \<Rightarrow> string option \<Rightarrow> plugin" where
  "plugin_new pretty_name version =
     \<lparr>os_pretty_name = (case pretty_name of None \<Rightarrow> ''unknown'' | Some n \<Rightarrow> n),
      os_version = (case version of None \<Rightarrow> ''unknown'' | Some v \<Rightarrow> v),
      target_item_map = [],
      job_task_map = [],
      job_to_remove_status_map = Map.empty,
      job_to_cancel_task_map = Map.empty,
      is_metadata_refresh_ongoing = False,
      last_refresh_usecs = 0,
      plugin_cache = Map.empty,
      app_store = (\<lambda>_. unallocated_app),
      n_apps = 0,
      update_target_tasks = (\<lambda>_. unallocated_update_target),
      n_update_target_tasks = 0,
      update_apps_tasks = (\<lambda>_. unallocated_update_apps),
      n_update_apps_tasks = 0,
      refresh_tasks = (\<lambda>_. unallocated_refresh),
      n_refresh_tasks = 0,
      cancelled = (\<lambda>_. False),
      own_cancelled = (\<lambda>_. False),
      n_own_cancellables = 0,
      remote_calls = []\<rparr>"

text \<open>
  Everything that can happen to the plugin: a call of one of its entry points, the
  reply to a remote call, a signal of the service, or the main loop running the callback
  of a task that has returned. Replies and signals arrive in any order; an event about a
  task or an item is for one that exists.
\<close>

datatype event =
    Refresh_Metadata guint64 guint64 guint64
  | Refresh_Metadata_Finish task_ref
  | List_Targets_Reply task_ref "g_error + (string \<times> string \<times> string) list"
  | Refresh_Proxy_Reply task_ref task_result
  | Get_Version_Reply task_ref "g_error + string"
  | Check_New_Reply task_ref "g_error + string"
  | List_Apps "gs_app_query option"
  | List_Distro_Upgrades
  | Update_Apps "app_ref list" "gs_plugin_update_apps_flag set" "cancellable_ref option"
  | Target_Proxy_Reply task_ref task_result
  | Update_Reply task_ref "g_error + string"
  | Job_Proxy_Reply task_ref "g_error + nat"
  | Progress_Changed task_ref nat
  | Job_Removed string gint32
  | Cancel_Requested task_ref
  | Cancel_Reply cancel_task task_result
  | Update_Target_Done task_ref

text \<open>
  \<open>Cancel_Requested task\<close>: the caller cancels the cancellable of an update-apps task, and
  the handler connected to it runs.
\<close>

definition g_cancellable_cancel :: "plugin \<Rightarrow> cancellable_ref option \<Rightarrow> plugin" where
  "g_cancellable_cancel self c =
     (case c of None \<Rightarrow> self | Some r \<Rightarrow> self\<lparr>cancelled := (cancelled self)(r := True)\<rparr>)"

fun step :: "plugin \<Rightarrow> event \<Rightarrow> plugin" where
  "step self (Refresh_Metadata cache_age_secs now_check now_start) =
     refresh_metadata_async self cache_age_secs now_check now_start"
| "step self (Refresh_Metadata_Finish task) =
     (if task < n_refresh_tasks self then fst (refresh_metadata_finish self task) else self)"
| "step self (List_Targets_Reply task r) =
     (if task < n_refresh_tasks self then refresh_metadata_list_targets_cb self task r else self)"
| "step self (Refresh_Proxy_Reply task r) =
     (if task < n_refresh_tasks self then refresh_metadata_proxy_new_cb self task r else self)"
| "step self (Get_Version_Reply task r) =
     (if task < n_refresh_tasks self then refresh_metadata_get_version_cb self task r else self)"
| "step self (Check_New_Reply task r) =
     (if task < n_refresh_tasks self then refresh_metadata_check_new_cb self task r else self)"
| "step self (List_Apps query) = fst (list_apps_async self query)"
| "step self List_Distro_Upgrades = fst (list_distro_upgrades_async self)"
| "step self (Update_Apps apps flags cancellable) =
     (if \<forall>app \<in> set apps. app < n_apps self
      then (case update_apps_async self apps flags cancellable of None \<Rightarrow> self | Some s1 \<Rightarrow> s1)
      else self)"
| "step self (Target_Proxy_Reply task r) =
     (if task < n_update_target_tasks self then update_target_proxy_new_cb self task r else self)"
| "step self (Update_Reply task r) =
     (if task < n_update_target_tasks self then update_target_update_cb self task r else self)"
| "step self (Job_Proxy_Reply task r) =
     (if task < n_update_target_tasks self then update_target_job_proxy_new_cb self task r else self)"
| "step self (Progress_Changed task progress) =
     (if task < n_update_target_tasks self then update_target_notify_progress_cb self task progress
      else self)"
| "step self (Job_Removed job_path job_status) = remove_job self job_path job_status"
| "step self (Cancel_Requested task) =
     (if task < n_update_apps_tasks self
      then update_apps_cancelled_cb
             (g_cancellable_cancel self (ua_cancellable (update_apps_tasks self task))) task
      else self)"
| "step self (Cancel_Reply task r) = cancel_job_cancel_cb self task r"
| "step self (Update_Target_Done task) =
     (if task < n_update_target_tasks self then update_apps_update_target_cb self task else self)"

definition run :: "plugin \<Rightarrow> event list \<Rightarrow> plugin" where
  "run self events = foldl step self events"

text \<open>The states the plugin can be in: set up, then any events.\<close>

definition reachable :: "plugin \<Rightarrow> bool" where
  "reachable self \<longleftrightarrow> (\<exists>pretty_name version events. self = run (plugin_new pretty_name version) events)"

section \<open>Invariants\<close>

text \<open>A job path is never both in the active-job table and filed for removal.\<close>

definition job_tables_inv :: "plugin \<Rightarrow> bool" where
  "job_tables_inv self \<longleftrightarrow>
     (\<forall>job_path \<in> fst ` set (job_task_map self). job_to_remove_status_map self job_path = None)"

text \<open>
  The target table has one entry per key, and an entry is filed under its own name.
\<close>

definition targets_inv :: "plugin \<Rightarrow> bool" where
  "targets_inv self \<longleftrightarrow>
     distinct (map fst (target_item_map self)) \<and>
     (\<forall>kv \<in> set (target_item_map self). t_name (snd kv) = fst kv)"

text \<open>
  The item cache holds allocated items only, and no item under two names.
\<close>

definition cache_inv :: "plugin \<Rightarrow> bool" where
  "cache_inv self \<longleftrightarrow>
     (\<forall>key app. plugin_cache self key = Some app \<longrightarrow> app < n_apps self) \<and>
     (\<forall>key key' app. plugin_cache self key = Some app \<longrightarrow> plugin_cache self key' = Some app \<longrightarrow>
        key = key')"

text \<open>Two states that differ at most in the item store and the item cache.\<close>

definition same_but_items :: "plugin \<Rightarrow> plugin \<Rightarrow> bool" where
  "same_but_items self s' \<longleftrightarrow>
     os_pretty_name s' = os_pretty_name self \<and> os_version s' = os_version self \<and>
     target_item_map s' = target_item_map self \<and> job_task_map s' = job_task_map self \<and>
     job_to_remove_status_map s' = job_to_remove_status_map self \<and>
     job_to_cancel_task_map s' = job_to_cancel_task_map self \<and>
     is_metadata_refresh_ongoing s' = is_metadata_refresh_ongoing self \<and>
     last_refresh_usecs s' = last_refresh_usecs self \<and>
     update_target_tasks s' = update_target_tasks self \<and>
     n_update_target_tasks s' = n_update_target_tasks self \<and>
     update_apps_tasks s' = update_apps_tasks self \<and>
     n_update_apps_tasks s' = n_update_apps_tasks self \<and>
     refresh_tasks s' = refresh_tasks self \<and> n_refresh_tasks s' = n_refresh_tasks self \<and>
     cancelled s' = cancelled self \<and> own_cancelled s' = own_cancelled self \<and>
     n_own_cancellables s' = n_own_cancellables self \<and>
     remote_calls s' = remote_calls self"

section \<open>The item states of the specification\<close>

text \<open>
  The specification's \<open>update_from_target\<close>, in its words: a function of the class, the
  current version and the latest version (and, for the host, of the installed OS
  version).
\<close>

definition spec_update_from_target :: "string \<Rightarrow> string \<Rightarrow> string \<Rightarrow> string \<Rightarrow> string \<times> gs_app_state" where
  "spec_update_from_target installed_os_version cls current latest =
     (if cls = ''host'' then
        (if latest \<noteq> '''' then (latest, GS_APP_STATE_AVAILABLE)
         else (installed_os_version, GS_APP_STATE_UNKNOWN))
      else
        (if latest \<noteq> '''' \<and> current \<noteq> '''' then (latest, GS_APP_STATE_UPDATABLE)
         else if latest \<noteq> '''' \<and> current = '''' then (latest, GS_APP_STATE_AVAILABLE)
         else if latest = '''' \<and> current \<noteq> '''' then (current, GS_APP_STATE_INSTALLED)
         else ('''', GS_APP_STATE_UNKNOWN)))"

text \<open>
  From one state to a later one in which only items were added: nothing but the item
  store and the cache differs, the cache keeps what it had, and what it has gained are
  new items.
\<close>

definition items_grow :: "plugin \<Rightarrow> plugin \<Rightarrow> bool" where
  "items_grow self s' \<longleftrightarrow>
     same_but_items self s' \<and> n_apps self \<le> n_apps s' \<and>
     (\<forall>k a. plugin_cache self k = Some a \<longrightarrow> plugin_cache s' k = Some a) \<and>
     (\<forall>k a. plugin_cache s' k = Some a \<longrightarrow> plugin_cache self k = Some a \<or> n_apps self \<le> a) \<and>
     (cache_inv self \<longrightarrow> cache_inv s')"

text \<open>Whether a target matches the query, as the three tests of the listing loop decide it.\<close>

definition query_matches :: "gs_app_query \<Rightarrow> target_item \<Rightarrow> bool" where
  "query_matches query target \<longleftrightarrow>
     (case q_keywords query of
        None \<Rightarrow> False
      | Some keywords \<Rightarrow>
          ''sysupdate'' \<in> set keywords \<or> t_class target \<in> set keywords \<or> t_name target \<in> set keywords) \<or>
     q_is_for_update query = GS_APP_QUERY_TRISTATE_TRUE \<or>
     (q_is_installed query \<noteq> GS_APP_QUERY_TRISTATE_UNSET \<and>
      ((q_is_installed query = GS_APP_QUERY_TRISTATE_FALSE \<and> current_version target = '''') \<or>
       (q_is_installed query = GS_APP_QUERY_TRISTATE_TRUE \<and> current_version target \<noteq> '''')))"

text \<open>The fields the three invariants speak about.\<close>

definition tracked_fields :: "plugin \<Rightarrow> (string \<times> target_item) list \<times> (string \<rightharpoonup> app_ref) \<times> nat \<times>
    (string \<times> task_ref) list \<times> (string \<rightharpoonup> gint32)" where
  "tracked_fields self =
     (target_item_map self, plugin_cache self, n_apps self, job_task_map self, job_to_remove_status_map self)"

definition plugin_inv :: "plugin \<Rightarrow> bool" where
  "plugin_inv self \<longleftrightarrow> targets_inv self \<and> cache_inv self \<and> job_tables_inv self"

text \<open>The names a listing of the service mentions.\<close>

definition listed_names :: "(string \<times> string \<times> string) list \<Rightarrow> string set" where
  "listed_names listing = (\<lambda>(cls, nm, path). nm) ` set listing"

section \<open>Example runs\<close>

text \<open>
  A service with a component \<open>app\<close> and the host. \<open>ex_visiting\<close>: the refresh has listed the
  targets and visits the host first; \<open>ex_refreshed\<close>: the refresh is over (host \<open>h0\<close> with
  \<open>h1\<close> on offer, the component not installed with \<open>c1\<close> on offer); \<open>ex_awaiting\<close>: the
  update of the component has a job path and waits for the job proxy; \<open>ex_active\<close>: the
  job is in the active-job table.
\<close>

definition ex_listing :: "(string \<times> string \<times> string) list" where
  "ex_listing = [(''component'', ''app'', ''/t/app''), (''host'', ''host'', ''/t/host'')]"

definition ex_visiting :: plugin where
  "ex_visiting =
     run (plugin_new (Some ''GNOME OS'') (Some ''1''))
       [Refresh_Metadata 0 1000 1000, List_Targets_Reply 0 (Inr ex_listing)]"

definition ex_refreshed :: plugin where
  "ex_refreshed =
     run ex_visiting
       [Refresh_Proxy_Reply 0 (Inr ()), Get_Version_Reply 0 (Inr ''h0''), Check_New_Reply 0 (Inr ''h1''),
        Refresh_Proxy_Reply 0 (Inr ()), Get_Version_Reply 0 (Inr ''''), Check_New_Reply 0 (Inr ''c1''),
        Refresh_Metadata_Finish 0]"

definition ex_awaiting :: plugin where
  "ex_awaiting =
     run ex_refreshed
       [Update_Apps [1] {} (Some 0), Target_Proxy_Reply 0 (Inr ()), Update_Reply 0 (Inr ''/job/1'')]"

definition ex_active :: plugin where
  "ex_active = run ex_awaiting [Job_Proxy_Reply 0 (Inr 0)]"

text \<open>
  A batch of two: the host and the component are to be updated, the component comes
  first, and its job has ended with status \<open>- 2\<close>. The callback of its update task has not
  run yet; the host is still in the queue.
\<close>

definition ex_first_failed :: plugin where
  "ex_first_failed =
     run ex_refreshed
       [Update_Apps [0, 1] {} (Some 0), Target_Proxy_Reply 0 (Inr ()), Update_Reply 0 (Inr ''/job/1''),
        Job_Proxy_Reply 0 (Inr 0), Job_Removed ''/job/1'' (- 2)]"

section \<open>Unfolding the model\<close>

lemmas app_defs =
  gs_app_set_state_def gs_app_set_state_recover_def gs_app_set_version_def gs_app_set_progress_def
  gs_app_get_metadata_item_def gs_app_set_metadata_def

lemmas store_defs =
  app_update_def update_target_data_update_def update_apps_data_update_def refresh_data_update_def
  update_target_return_def update_apps_return_def refresh_return_def remote_call_issue_def
  g_cancellable_is_cancelled_def g_cancellable_cancel_def

lemmas factory_defs =
  lookup_target_by_app_def create_app_for_target_def get_or_create_app_for_target_def
  update_app_for_target_def target_item_new_def

lemmas job_defs =
  cancel_job_revoke_def remove_job_revoke_def remove_job_apply_def remove_job_def cancel_job_def
  cancel_job_cancel_cb_def update_target_notify_progress_cb_def update_target_async_def
  update_target_proxy_new_cb_def update_target_update_cb_def update_target_job_proxy_new_cb_def
  update_target_finish_def

lemmas batch_defs =
  update_apps_iter_def update_apps_update_target_cb_def update_apps_queue_def update_apps_async_def
  update_apps_cancelled_cb_def

lemmas refresh_defs =
  refresh_metadata_async_def refresh_metadata_iter_def mark_all_invalid_def insert_listed_def
  cache_remove_invalid_def check_to_be_removed_def host_first_queue_def
  refresh_metadata_list_targets_cb_def target_update_def refresh_metadata_proxy_new_cb_def
  refresh_metadata_get_version_cb_def refresh_metadata_check_new_cb_def refresh_metadata_finish_def

lemmas listing_defs =
  gs_app_list_add_def list_apps_async_def list_distro_upgrades_async_def

lemmas example_defs =
  ex_listing_def ex_visiting_def ex_refreshed_def ex_awaiting_def ex_active_def ex_first_failed_def
  run_def plugin_new_def
  unallocated_app_def unallocated_update_target_def unallocated_update_apps_def unallocated_refresh_def

lemmas model_defs =
  app_defs store_defs factory_defs job_defs batch_defs refresh_defs listing_defs Let_def

text \<open>A query for the items with an update: one property set.\<close>

definition ex_query_for_update :: gs_app_query where
  "ex_query_for_update =
     \<lparr>q_is_installed = GS_APP_QUERY_TRISTATE_UNSET, q_is_for_update = GS_APP_QUERY_TRISTATE_TRUE,
      q_keywords = None, q_n_properties_set = 1\<rparr>"

definition ex_host_target :: target_item where
  "ex_host_target =
     \<lparr>t_proxy = True, is_valid = True, t_class = ''host'', t_name = ''host'',
      object_path = ''/t/host'', current_version = ''h0'', latest_version = ''h1''\<rparr>"

definition ex_app_target :: target_item where
  "ex_app_target =
     \<lparr>t_proxy = True, is_valid = True, t_class = ''component'', t_name = ''app'',
      object_path = ''/t/app'', current_version = '''', latest_version = ''c1''\<rparr>"

section \<open>The life of one job\<close>

text \<open>
  Where the job at \<open>job_path\<close>, started for the update task \<open>task\<close>, stands in the three
  tables: not known to any table, in the active-job table, filed for removal with a
  status, or resolved with the outcome of that status. In each of them no cancellation
  is filed for the path.
\<close>

definition job_outcome :: "gint32 \<Rightarrow> task_result" where
  "job_outcome job_status = (if job_status = 0 then Inr () else Inl (Update_Failed_Status job_status))"

definition job_untracked :: "plugin \<Rightarrow> task_ref \<Rightarrow> string \<Rightarrow> bool" where
  "job_untracked self task job_path \<longleftrightarrow>
     task < n_update_target_tasks self \<and>
     ut_job_path (update_target_tasks self task) = Some job_path \<and>
     ut_returned (update_target_tasks self task) = [] \<and>
     map_of (job_task_map self) job_path = None \<and>
     job_to_remove_status_map self job_path = None \<and>
     job_to_cancel_task_map self job_path = None"

definition job_active :: "plugin \<Rightarrow> task_ref \<Rightarrow> string \<Rightarrow> bool" where
  "job_active self task job_path \<longleftrightarrow>
     task < n_update_target_tasks self \<and>
     ut_job_path (update_target_tasks self task) = Some job_path \<and>
     ut_returned (update_target_tasks self task) = [] \<and>
     map_of (job_task_map self) job_path = Some task \<and>
     job_to_remove_status_map self job_path = None \<and>
     job_to_cancel_task_map self job_path = None"

definition job_removal_filed :: "plugin \<Rightarrow> task_ref \<Rightarrow> string \<Rightarrow> gint32 \<Rightarrow> bool" where
  "job_removal_filed self task job_path job_status \<longleftrightarrow>
     task < n_update_target_tasks self \<and>
     ut_job_path (update_target_tasks self task) = Some job_path \<and>
     ut_returned (update_target_tasks self task) = [] \<and>
     map_of (job_task_map self) job_path = None \<and>
     job_to_remove_status_map self job_path = Some job_status \<and>
     job_to_cancel_task_map self job_path = None"

definition job_resolved :: "plugin \<Rightarrow> task_ref \<Rightarrow> string \<Rightarrow> gint32 \<Rightarrow> bool" where
  "job_resolved self task job_path job_status \<longleftrightarrow>
     task < n_update_target_tasks self \<and>
     ut_job_path (update_target_tasks self task) = Some job_path \<and>
     ut_returned (update_target_tasks self task) = [job_outcome job_status] \<and>
     map_of (job_task_map self) job_path = None \<and>
     job_to_remove_status_map self job_path = None \<and>
     job_to_cancel_task_map self job_path = None"

text \<open>The phase of the job, from which of the two events (handle created, removal notified) have happened.\<close>

definition job_phase :: "plugin \<Rightarrow> task_ref \<Rightarrow> string \<Rightarrow> gint32 \<Rightarrow> bool \<Rightarrow> bool \<Rightarrow> bool" where
  "job_phase self task job_path job_status created removed =
     (if created
      then (if removed then job_resolved self task job_path job_status
            else job_active self task job_path)
      else (if removed then job_removal_filed self task job_path job_status
            else job_untracked self task job_path))"

section \<open>The batch and its queue\<close>









section \<open>Item states from a target snapshot\<close>

text \<open>
  Claim C5. Updating an item from a target snapshot gives the version and the state the
  specification's \<open>update_from_target\<close> computes from the class, the current version and
  the latest version: for a component \<open>(latest, Updatable)\<close>, \<open>(latest, Available)\<close>,
  \<open>(current, Installed)\<close> or \<open>('''', Unknown)\<close>; for the host \<open>(latest, Available)\<close> or
  \<open>(installed OS version, Unknown)\<close>. Nothing else of the item or of the plugin enters.
\<close>

theorem update_app_for_target_spec:
  assumes "t_class target = ''host'' \<or> t_class target = ''component''"
  shows "(app_version (update_app_for_target self app target),
          app_state (update_app_for_target self app target)) =
         spec_update_from_target (os_version self) (t_class target)
           (current_version target) (latest_version target)"
  using assms
  by (auto simp: update_app_for_target_def spec_update_from_target_def gs_app_set_state_def
        gs_app_set_version_def Let_def)

theorem update_app_for_target_spec_witness:
  "(app_version (update_app_for_target (plugin_new None None) unallocated_app
       ((target_item_new ''component'' ''c'' ''/t/c'')\<lparr>current_version := ''c0''\<rparr>)),
    app_state (update_app_for_target (plugin_new None None) unallocated_app
       ((target_item_new ''component'' ''c'' ''/t/c'')\<lparr>current_version := ''c0''\<rparr>))) =
   (''c0'', GS_APP_STATE_INSTALLED)"
  using update_app_for_target_spec
    [of "(target_item_new ''component'' ''c'' ''/t/c'')\<lparr>current_version := ''c0''\<rparr>"
        "plugin_new None None" unallocated_app]
  by (simp add: target_item_new_def spec_update_from_target_def plugin_new_def)


section \<open>The flags of the batch update\<close>

text \<open>
  Claim C9. A batch update called with the no-download flag, the no-apply flag or both
  returns at once from \<^verbatim>\<open>update_apps_async\<close>: the task returns success when both are set and
  a failure when exactly one is; no remote call is issued, no update task is created, no
  table and no item changes. But the task data is not set on this path. Called without
  a cancellable, \<^verbatim>\<open>update_apps_finish\<close> then hands that result to the caller; called with a
  cancellable, it dereferences the missing task data, and the operation ends in a fault
  instead of a result.
\<close>

theorem update_apps_flags_then_finish:
  assumes "GS_PLUGIN_UPDATE_APPS_FLAGS_NO_DOWNLOAD \<in> flags \<or> GS_PLUGIN_UPDATE_APPS_FLAGS_NO_APPLY \<in> flags"
  shows "\<exists>s'. update_apps_async self apps flags cancellable = Some s' \<and>
           ua_returned (update_apps_tasks s' (n_update_apps_tasks self)) =
             [if GS_PLUGIN_UPDATE_APPS_FLAGS_NO_DOWNLOAD \<in> flags \<and> GS_PLUGIN_UPDATE_APPS_FLAGS_NO_APPLY \<in> flags
              then Inr ()
              else if GS_PLUGIN_UPDATE_APPS_FLAGS_NO_DOWNLOAD \<in> flags
              then Inl Cannot_Apply_Without_Download
              else Inl Cannot_Download_Without_Apply] \<and>
           remote_calls s' = remote_calls self \<and>
           n_update_target_tasks s' = n_update_target_tasks self \<and>
           update_target_tasks s' = update_target_tasks self \<and>
           job_task_map s' = job_task_map self \<and>
           job_to_remove_status_map s' = job_to_remove_status_map self \<and>
           job_to_cancel_task_map s' = job_to_cancel_task_map self \<and>
           app_store s' = app_store self \<and>
           update_apps_finish s' (n_update_apps_tasks self) =
             (case cancellable of
                None \<Rightarrow>
                  Inr (Some (if GS_PLUGIN_UPDATE_APPS_FLAGS_NO_DOWNLOAD \<in> flags \<and>
                                GS_PLUGIN_UPDATE_APPS_FLAGS_NO_APPLY \<in> flags
                             then Inr ()
                             else if GS_PLUGIN_UPDATE_APPS_FLAGS_NO_DOWNLOAD \<in> flags
                             then Inl Cannot_Apply_Without_Download
                             else Inl Cannot_Download_Without_Apply))
              | Some c \<Rightarrow> Inl Null_Pointer_Dereference)"
  using assms
  by (auto simp: update_apps_async_def update_apps_return_def update_apps_data_update_def Let_def
        update_apps_finish_def g_cancellable_is_cancelled_def split: option.splits)

text \<open>
  With both flags and a cancellable (one that is not cancelled): the task returns success,
  and finishing the operation faults. Without a cancellable the caller gets the failure.
\<close>

theorem update_apps_flags_then_finish_witness:
  "(\<exists>s'. update_apps_async ex_refreshed [1]
            {GS_PLUGIN_UPDATE_APPS_FLAGS_NO_DOWNLOAD, GS_PLUGIN_UPDATE_APPS_FLAGS_NO_APPLY} (Some 0) = Some s' \<and>
         ua_returned (update_apps_tasks s' 0) = [Inr ()] \<and>
         remote_calls s' = remote_calls ex_refreshed \<and>
         update_apps_finish s' 0 = Inl Null_Pointer_Dereference) \<and>
   (\<exists>s'. update_apps_async ex_refreshed [1] {GS_PLUGIN_UPDATE_APPS_FLAGS_NO_APPLY} None = Some s' \<and>
         ua_returned (update_apps_tasks s' 0) = [Inl Cannot_Download_Without_Apply] \<and>
         remote_calls s' = remote_calls ex_refreshed \<and>
         update_apps_finish s' 0 = Inr (Some (Inl Cannot_Download_Without_Apply)))"
proof -
  have n: "n_update_apps_tasks ex_refreshed = 0"
    by (simp add: example_defs model_defs)
  have a: "\<exists>s'. update_apps_async ex_refreshed [1]
            {GS_PLUGIN_UPDATE_APPS_FLAGS_NO_DOWNLOAD, GS_PLUGIN_UPDATE_APPS_FLAGS_NO_APPLY} (Some 0) = Some s' \<and>
         ua_returned (update_apps_tasks s' 0) = [Inr ()] \<and>
         remote_calls s' = remote_calls ex_refreshed \<and>
         update_apps_finish s' 0 = Inl Null_Pointer_Dereference"
    using update_apps_flags_then_finish
      [of "{GS_PLUGIN_UPDATE_APPS_FLAGS_NO_DOWNLOAD, GS_PLUGIN_UPDATE_APPS_FLAGS_NO_APPLY}"
          ex_refreshed "[1]" "Some 0"]
    by (auto simp: n)
  have b: "\<exists>s'. update_apps_async ex_refreshed [1] {GS_PLUGIN_UPDATE_APPS_FLAGS_NO_APPLY} None = Some s' \<and>
         ua_returned (update_apps_tasks s' 0) = [Inl Cannot_Download_Without_Apply] \<and>
         remote_calls s' = remote_calls ex_refreshed \<and>
         update_apps_finish s' 0 = Inr (Some (Inl Cannot_Download_Without_Apply))"
    using update_apps_flags_then_finish
      [of "{GS_PLUGIN_UPDATE_APPS_FLAGS_NO_APPLY}" ex_refreshed "[1]" None]
    by (auto simp: n)
  from a b show ?thesis by (rule conjI)
qed

section \<open>A cancellation before the job handle exists\<close>

lemma find_in_table:
  "find (\<lambda>(key, val). P key val) table = Some (k, v) \<Longrightarrow> map_of table k \<noteq> None"
  by (induction table) (auto split: if_splits)

text \<open>
  \<^verbatim>\<open>cancel_job\<close> finds the job path in the active-job table, so the path it has found always
  has an update task: the branch that files a pending-cancellation record is never taken,
  and the pending-cancellation table is never written.
\<close>

lemma cancel_job_files_nothing:
  "job_to_cancel_task_map (cancel_job self app) = job_to_cancel_task_map self"
proof (cases "lookup_target_by_app self app")
  case None
  then show ?thesis by (simp add: cancel_job_def)
next
  case (Some target)
  show ?thesis
  proof (cases "find (\<lambda>(key, val). ut_target_path (update_target_tasks self val) = object_path target)
                  (job_task_map self)")
    case None
    with Some show ?thesis by (simp add: cancel_job_def)
  next
    case found: (Some kv)
    obtain job_path task where kv: "kv = (job_path, task)" by (cases kv)
    from found kv have "map_of (job_task_map self) job_path \<noteq> None"
      using find_in_table
        [of "\<lambda>key val. ut_target_path (update_target_tasks self val) = object_path target"
            "job_task_map self" job_path task]
      by simp
    then obtain t where "map_of (job_task_map self) job_path = Some t" by auto
    with Some found kv show ?thesis
      by (simp add: cancel_job_def Let_def remote_call_issue_def)
  qed
qed

lemma ex_awaiting_facts:
  "ut_job_path (update_target_tasks ex_awaiting 0) = Some ''/job/1''"
  "job_task_map ex_awaiting = []"
  "job_to_remove_status_map ex_awaiting = Map.empty"
  "job_to_cancel_task_map ex_awaiting = Map.empty"
  "ua_app (update_apps_tasks ex_awaiting 0) = Some 1"
  "n_update_apps_tasks ex_awaiting = 1"
  "n_update_target_tasks ex_awaiting = 1"
  "ut_returned (update_target_tasks ex_awaiting 0) = []"
  "remote_calls ex_awaiting =
     [Manager_Call_List_Targets, Target_Proxy_New ''/t/host'', Target_Call_Get_Version ''/t/host'',
      Target_Call_Check_New ''/t/host'', Target_Proxy_New ''/t/app'', Target_Call_Get_Version ''/t/app'',
      Target_Call_Check_New ''/t/app'', Target_Proxy_New ''/t/app'', Target_Call_Update ''/t/app'' '''',
      Job_Proxy_New ''/job/1'']"
  by (simp_all add: example_defs model_defs)

text \<open>
  Claim C3, at a state the plugin reaches: the update of the component has been started
  remotely (the job path \<^verbatim>\<open>/job/1\<close> is known), the job proxy is not there yet, and no
  record is filed for the path. The caller cancels. No pending-cancellation record is
  filed and nothing is sent: \<^verbatim>\<open>cancel_job\<close> returns at "no job found for target".
\<close>

theorem cancel_before_job_handle_files_nothing:
  "job_to_cancel_task_map (step ex_awaiting (Cancel_Requested 0)) ''/job/1'' = None \<and>
   job_to_cancel_task_map (cancel_job ex_awaiting 1) ''/job/1'' = None \<and>
   remote_calls (cancel_job ex_awaiting 1) = remote_calls ex_awaiting"
proof -
  have a: "job_to_cancel_task_map (step ex_awaiting (Cancel_Requested 0)) ''/job/1'' = None"
    by (simp add: ex_awaiting_facts update_apps_cancelled_cb_def cancel_job_files_nothing
          g_cancellable_cancel_def Let_def split: option.splits)
  have b: "job_to_cancel_task_map (cancel_job ex_awaiting 1) ''/job/1'' = None"
    by (simp add: cancel_job_files_nothing ex_awaiting_facts)
  have c: "remote_calls (cancel_job ex_awaiting 1) = remote_calls ex_awaiting"
    by (simp add: cancel_job_def ex_awaiting_facts split: option.splits)
  from a b c show ?thesis by simp
qed

section \<open>The gate of the metadata refresh\<close>

text \<open>
  Without overflow of \<^verbatim>\<open>cache_age_secs * G_USEC_PER_SEC\<close>, the test at the head of
  \<^verbatim>\<open>refresh_metadata_async\<close> is as described: a request while the flag is set, or while the
  cache is younger than a maximum age greater than zero, returns success at once and
  starts nothing. (The flag itself is cleared by \<^verbatim>\<open>refresh_metadata_finish\<close> of any request,
  a gated one too.)
\<close>

lemma refresh_gate_closed:
  assumes "is_metadata_refresh_ongoing self \<or>
           (0 < cache_age_secs \<and> unat cache_age_secs * 1000000 < 2 ^ 64 \<and>
            unat (now_check - last_refresh_usecs self) < unat cache_age_secs * 1000000)"
  shows "rm_returned (refresh_tasks (refresh_metadata_async self cache_age_secs now_check now_start)
           (n_refresh_tasks self)) = [Inr ()] \<and>
         remote_calls (refresh_metadata_async self cache_age_secs now_check now_start) = remote_calls self \<and>
         is_metadata_refresh_ongoing (refresh_metadata_async self cache_age_secs now_check now_start) =
           is_metadata_refresh_ongoing self \<and>
         last_refresh_usecs (refresh_metadata_async self cache_age_secs now_check now_start) =
           last_refresh_usecs self"
proof -
  have gate: "is_metadata_refresh_ongoing self \<or>
              (0 < cache_age_secs \<and> now_check - last_refresh_usecs self < cache_age_secs * 1000000)"
  proof (cases "is_metadata_refresh_ongoing self")
    case True
    then show ?thesis by simp
  next
    case False
    with assms have pos: "0 < cache_age_secs"
      and small: "unat cache_age_secs * 1000000 < 2 ^ 64"
      and young: "unat (now_check - last_refresh_usecs self) < unat cache_age_secs * 1000000"
      by auto
    have "unat (cache_age_secs * 1000000) = unat cache_age_secs * 1000000"
      using small by (simp add: unat_word_ariths)
    with young have "now_check - last_refresh_usecs self < cache_age_secs * 1000000"
      by (simp add: word_less_nat_alt)
    with pos show ?thesis by simp
  qed
  then show ?thesis
    by (auto simp: refresh_metadata_async_def refresh_return_def refresh_data_update_def Let_def)
qed

lemma refresh_gate_open:
  assumes "\<not> is_metadata_refresh_ongoing self" and "cache_age_secs = 0"
  shows "remote_calls (refresh_metadata_async self cache_age_secs now_check now_start) =
           remote_calls self @ [Manager_Call_List_Targets] \<and>
         is_metadata_refresh_ongoing (refresh_metadata_async self cache_age_secs now_check now_start) \<and>
         rm_returned (refresh_tasks (refresh_metadata_async self cache_age_secs now_check now_start)
           (n_refresh_tasks self)) = []"
  using assms
  by (simp add: refresh_metadata_async_def remote_call_issue_def Let_def)

lemma ex_refreshed_facts:
  "\<not> is_metadata_refresh_ongoing ex_refreshed"
  "last_refresh_usecs ex_refreshed = 1000"
  "n_refresh_tasks ex_refreshed = 1"
  "remote_calls ex_refreshed =
     [Manager_Call_List_Targets, Target_Proxy_New ''/t/host'', Target_Call_Get_Version ''/t/host'',
      Target_Call_Check_New ''/t/host'', Target_Proxy_New ''/t/app'', Target_Call_Get_Version ''/t/app'',
      Target_Call_Check_New ''/t/app'']"
  by (simp_all add: example_defs model_defs)

text \<open>
  Claim C7, at an input where the product overflows. The last refresh started at 1000
  microseconds and is over; at 2000 microseconds a refresh is requested with a maximum
  age of \<open>2 ^ 63\<close> seconds. The cache is 1000 microseconds old, far below the maximum, yet
  \<open>2 ^ 63 * 1000000\<close> is 0 in \<^verbatim>\<open>guint64\<close>, the age test fails, and a refresh pass starts.
\<close>

theorem refresh_gate_overflow:
  "unat (2000 - last_refresh_usecs ex_refreshed) < unat (9223372036854775808 :: guint64) * 1000000 \<and>
   \<not> is_metadata_refresh_ongoing ex_refreshed \<and>
   is_metadata_refresh_ongoing (refresh_metadata_async ex_refreshed 9223372036854775808 2000 2000) \<and>
   remote_calls (refresh_metadata_async ex_refreshed 9223372036854775808 2000 2000) =
     remote_calls ex_refreshed @ [Manager_Call_List_Targets] \<and>
   rm_returned (refresh_tasks (refresh_metadata_async ex_refreshed 9223372036854775808 2000 2000) 1) = []"
  by (simp add: ex_refreshed_facts refresh_metadata_async_def remote_call_issue_def Let_def)

section \<open>A failure while visiting a target\<close>

lemma ex_visiting_facts:
  "rm_queue (refresh_tasks ex_visiting 0) = [''app'']"
  "rm_target (refresh_tasks ex_visiting 0) = Some ''host''"
  "rm_returned (refresh_tasks ex_visiting 0) = []"
  "remote_calls ex_visiting = [Manager_Call_List_Targets, Target_Proxy_New ''/t/host'']"
  by (simp_all add: example_defs model_defs)

text \<open>
  Claim C4 as stated fails. The refresh visits the host and the component \<open>app\<close> is
  queued; the reply to \<^verbatim>\<open>GetVersion\<close> for the host is an error. The refresh task
  returns that error, and no call for the queued component is issued.
\<close>

theorem refresh_visit_failure_counterexample:
  "rm_queue (refresh_tasks ex_visiting 0) = [''app''] \<and>
   rm_returned (refresh_tasks
      (refresh_metadata_get_version_cb ex_visiting 0 (Inl (Remote_Error ''no version''))) 0) =
     [Inl (Remote_Error ''no version'')] \<and>
   remote_calls (refresh_metadata_get_version_cb ex_visiting 0 (Inl (Remote_Error ''no version''))) =
     remote_calls ex_visiting \<and>
   rm_queue (refresh_tasks
      (refresh_metadata_get_version_cb ex_visiting 0 (Inl (Remote_Error ''no version''))) 0) = [''app'']"
  by (simp add: ex_visiting_facts refresh_metadata_get_version_cb_def refresh_return_def
        refresh_data_update_def)

text \<open>
  Claim C4, amended. A failure of a remote call while visiting a target (creating its
  proxy, getting its version, checking for a newer version) ends the refresh: the
  refresh task returns that error; no further call is issued, the queue is left as it
  is, and the target table, the cache and the items are unchanged.
\<close>

theorem refresh_visit_failure_aborts:
  "(let s' = refresh_metadata_proxy_new_cb self task (Inl local_error) in
      rm_returned (refresh_tasks s' task) = rm_returned (refresh_tasks self task) @ [Inl local_error] \<and>
      rm_queue (refresh_tasks s' task) = rm_queue (refresh_tasks self task) \<and>
      remote_calls s' = remote_calls self \<and> target_item_map s' = target_item_map self \<and>
      plugin_cache s' = plugin_cache self \<and> app_store s' = app_store self) \<and>
   (let s' = refresh_metadata_get_version_cb self task (Inl local_error) in
      rm_returned (refresh_tasks s' task) = rm_returned (refresh_tasks self task) @ [Inl local_error] \<and>
      rm_queue (refresh_tasks s' task) = rm_queue (refresh_tasks self task) \<and>
      remote_calls s' = remote_calls self \<and> target_item_map s' = target_item_map self \<and>
      plugin_cache s' = plugin_cache self \<and> app_store s' = app_store self) \<and>
   (let s' = refresh_metadata_check_new_cb self task (Inl local_error) in
      rm_returned (refresh_tasks s' task) = rm_returned (refresh_tasks self task) @ [Inl local_error] \<and>
      rm_queue (refresh_tasks s' task) = rm_queue (refresh_tasks self task) \<and>
      remote_calls s' = remote_calls self \<and> target_item_map s' = target_item_map self \<and>
      plugin_cache s' = plugin_cache self \<and> app_store s' = app_store self)"
  by (simp add: refresh_metadata_proxy_new_cb_def refresh_metadata_get_version_cb_def
        refresh_metadata_check_new_cb_def refresh_return_def refresh_data_update_def Let_def)

theorem refresh_visit_failure_aborts_witness:
  "rm_returned (refresh_tasks
      (refresh_metadata_check_new_cb ex_visiting 0 (Inl (Remote_Error ''offline''))) 0) =
     [Inl (Remote_Error ''offline'')] \<and>
   remote_calls (refresh_metadata_check_new_cb ex_visiting 0 (Inl (Remote_Error ''offline''))) =
     [Manager_Call_List_Targets, Target_Proxy_New ''/t/host'']"
  using refresh_visit_failure_aborts [of ex_visiting 0 "Remote_Error ''offline''"]
  by (simp add: Let_def ex_visiting_facts)

section \<open>Creation, removal and cancellation in any order\<close>

text \<open>What \<^verbatim>\<open>cancel_job\<close> and a cancellation request leave untouched.\<close>

lemma cancel_job_frame:
  "job_task_map (cancel_job self app) = job_task_map self"
  "job_to_remove_status_map (cancel_job self app) = job_to_remove_status_map self"
  "update_target_tasks (cancel_job self app) = update_target_tasks self"
  "n_update_target_tasks (cancel_job self app) = n_update_target_tasks self"
  "update_apps_tasks (cancel_job self app) = update_apps_tasks self"
  "n_update_apps_tasks (cancel_job self app) = n_update_apps_tasks self"
  "app_store (cancel_job self app) = app_store self"
  "n_apps (cancel_job self app) = n_apps self"
  "target_item_map (cancel_job self app) = target_item_map self"
  "plugin_cache (cancel_job self app) = plugin_cache self"
  by (simp_all add: cancel_job_def Let_def remote_call_issue_def split: option.splits prod.splits)

lemma cancel_requested_frame:
  "job_task_map (step self (Cancel_Requested batch)) = job_task_map self"
  "job_to_remove_status_map (step self (Cancel_Requested batch)) = job_to_remove_status_map self"
  "job_to_cancel_task_map (step self (Cancel_Requested batch)) = job_to_cancel_task_map self"
  "update_target_tasks (step self (Cancel_Requested batch)) = update_target_tasks self"
  "n_update_target_tasks (step self (Cancel_Requested batch)) = n_update_target_tasks self"
  "app_store (step self (Cancel_Requested batch)) = app_store self"
  by (simp_all add: update_apps_cancelled_cb_def g_cancellable_cancel_def Let_def cancel_job_frame
        cancel_job_files_nothing split: option.splits)

lemma cancel_keeps_phase:
  "job_untracked self task job_path \<Longrightarrow> job_untracked (step self (Cancel_Requested batch)) task job_path"
  "job_active self task job_path \<Longrightarrow> job_active (step self (Cancel_Requested batch)) task job_path"
  "job_removal_filed self task job_path st \<Longrightarrow> job_removal_filed (step self (Cancel_Requested batch)) task job_path st"
  "job_resolved self task job_path st \<Longrightarrow> job_resolved (step self (Cancel_Requested batch)) task job_path st"
  unfolding job_untracked_def job_active_def job_removal_filed_def job_resolved_def
  by (simp_all only: cancel_requested_frame simp_thms)


lemma removed_untracked:
  "job_untracked self task job_path \<Longrightarrow>
   job_removal_filed (step self (Job_Removed job_path st)) task job_path st"
  unfolding job_untracked_def job_removal_filed_def
  by (simp add: remove_job_def cancel_job_revoke_def)

lemma removed_active:
  "job_active self task job_path \<Longrightarrow>
   job_resolved (step self (Job_Removed job_path st)) task job_path st"
  unfolding job_active_def job_resolved_def
  by (simp add: remove_job_def remove_job_apply_def cancel_job_revoke_def Let_def app_update_def
        update_target_return_def update_target_data_update_def delete_conv' job_outcome_def)

lemma created_untracked:
  "job_untracked self task job_path \<Longrightarrow>
   job_active (step self (Job_Proxy_Reply task (Inr progress))) task job_path"
  unfolding job_untracked_def job_active_def
  by (simp add: update_target_job_proxy_new_cb_def Let_def update_target_notify_progress_cb_def
        app_update_def update_target_data_update_def update_conv' cancel_job_frame
        cancel_job_files_nothing)

lemma created_removal_filed:
  "job_removal_filed self task job_path st \<Longrightarrow>
   job_resolved (step self (Job_Proxy_Reply task (Inr progress))) task job_path st"
  unfolding job_removal_filed_def job_resolved_def
  by (simp add: update_target_job_proxy_new_cb_def Let_def update_target_notify_progress_cb_def
        app_update_def update_target_data_update_def update_conv' delete_conv'
        remove_job_apply_def cancel_job_revoke_def update_target_return_def job_outcome_def)


text \<open>Each event moves the job from one phase to the next; a cancellation request moves nothing.\<close>

lemma created_phase:
  "job_phase self task job_path st False removed \<Longrightarrow>
   job_phase (step self (Job_Proxy_Reply task (Inr progress))) task job_path st True removed"
  by (cases removed) (simp_all add: job_phase_def created_untracked created_removal_filed del: step.simps)

lemma removed_phase:
  "job_phase self task job_path st created False \<Longrightarrow>
   job_phase (step self (Job_Removed job_path st)) task job_path st created True"
  by (cases created) (simp_all add: job_phase_def removed_untracked removed_active del: step.simps)

lemma cancel_phase:
  "job_phase self task job_path st created removed \<Longrightarrow>
   job_phase (step self (Cancel_Requested batch)) task job_path st created removed"
  by (cases created; cases removed) (simp_all add: job_phase_def cancel_keeps_phase del: step.simps)

lemma job_phase_run:
  assumes "job_phase self task job_path st created removed"
      and "distinct events"
      and "set events \<subseteq> {Job_Proxy_Reply task (Inr progress), Job_Removed job_path st, Cancel_Requested batch}"
      and "Job_Proxy_Reply task (Inr progress) \<in> set events \<Longrightarrow> \<not> created"
      and "Job_Removed job_path st \<in> set events \<Longrightarrow> \<not> removed"
  shows "job_phase (run self events) task job_path st
           (created \<or> Job_Proxy_Reply task (Inr progress) \<in> set events)
           (removed \<or> Job_Removed job_path st \<in> set events)"
  using assms
proof (induction events arbitrary: self created removed)
  case Nil
  then show ?case by (simp add: run_def)
next
  case (Cons ev events)
  have run: "run self (ev # events) = run (step self ev) events"
    by (simp add: run_def)
  from Cons.prems(3) consider
      (created) "ev = Job_Proxy_Reply task (Inr progress)"
    | (removed) "ev = Job_Removed job_path st"
    | (cancel) "ev = Cancel_Requested batch"
    by auto
  then show ?case
  proof cases
    case created
    with Cons.prems(4) have nc: "\<not> created" by simp
    from created Cons.prems(2) have notin: "Job_Proxy_Reply task (Inr progress) \<notin> set events" by simp
    have "job_phase (step self ev) task job_path st True removed"
      using Cons.prems(1) nc created_phase unfolding created by simp
    from Cons.IH [OF this] Cons.prems(2,3,5) notin
    have "job_phase (run (step self ev) events) task job_path st
            (True \<or> Job_Proxy_Reply task (Inr progress) \<in> set events)
            (removed \<or> Job_Removed job_path st \<in> set events)"
      by auto
    with created show ?thesis unfolding run by simp
  next
    case removed
    with Cons.prems(5) have nr: "\<not> removed" by simp
    from removed Cons.prems(2) have notin: "Job_Removed job_path st \<notin> set events" by simp
    have "job_phase (step self ev) task job_path st created True"
      using Cons.prems(1) nr removed_phase unfolding removed by simp
    from Cons.IH [OF this] Cons.prems(2,3,4) notin
    have "job_phase (run (step self ev) events) task job_path st
            (created \<or> Job_Proxy_Reply task (Inr progress) \<in> set events)
            (True \<or> Job_Removed job_path st \<in> set events)"
      by auto
    with removed show ?thesis unfolding run by simp
  next
    case cancel
    have "job_phase (step self ev) task job_path st created removed"
      using Cons.prems(1) cancel_phase unfolding cancel by simp
    from Cons.IH [OF this] Cons.prems(2,3,4,5)
    have "job_phase (run (step self ev) events) task job_path st
            (created \<or> Job_Proxy_Reply task (Inr progress) \<in> set events)
            (removed \<or> Job_Removed job_path st \<in> set events)"
      by auto
    with cancel show ?thesis unfolding run by simp
  qed
qed

text \<open>
  Claim C1. The update task \<open>task\<close> has been given the job path \<open>job_path\<close> and has not
  returned; none of the three tables knows the path. Then the job proxy is created, the
  removal of the job is notified and a cancellation is requested, each once, in any of
  the six orders. Afterwards the task has returned exactly once (\<^verbatim>\<open>TRUE\<close> for status 0,
  the failure with the status otherwise) and none of the three tables has an entry for
  the path.
\<close>

theorem job_events_any_order:
  assumes "task < n_update_target_tasks self"
      and "ut_job_path (update_target_tasks self task) = Some job_path"
      and "ut_returned (update_target_tasks self task) = []"
      and "map_of (job_task_map self) job_path = None"
      and "job_to_remove_status_map self job_path = None"
      and "job_to_cancel_task_map self job_path = None"
      and "mset events =
             mset [Job_Proxy_Reply task (Inr progress), Job_Removed job_path job_status,
                   Cancel_Requested batch]"
  shows "ut_returned (update_target_tasks (run self events) task) =
           [if job_status = 0 then Inr () else Inl (Update_Failed_Status job_status)] \<and>
         map_of (job_task_map (run self events)) job_path = None \<and>
         job_to_remove_status_map (run self events) job_path = None \<and>
         job_to_cancel_task_map (run self events) job_path = None"
proof -
  let ?evs = "[Job_Proxy_Reply task (Inr progress), Job_Removed job_path job_status,
               Cancel_Requested batch]"
  have "distinct ?evs" by simp
  with assms(7) have d: "distinct events"
    by (metis mset_eq_imp_distinct_iff)
  from assms(7) have s: "set events = set ?evs"
    by (rule mset_eq_setD)
  have start: "job_phase self task job_path job_status False False"
    using assms(1-6) by (simp add: job_phase_def job_untracked_def)
  have "job_phase (run self events) task job_path job_status
          (False \<or> Job_Proxy_Reply task (Inr progress) \<in> set events)
          (False \<or> Job_Removed job_path job_status \<in> set events)"
    by (rule job_phase_run [OF start d, where batch = batch]) (use s in auto)
  with s have "job_resolved (run self events) task job_path job_status"
    by (simp add: job_phase_def)
  then show ?thesis
    by (simp add: job_resolved_def job_outcome_def)
qed

theorem job_events_any_order_witness:
  "ut_returned (update_target_tasks
      (run ex_awaiting [Cancel_Requested 0, Job_Removed ''/job/1'' (- 2), Job_Proxy_Reply 0 (Inr 0)]) 0) =
     [Inl (Update_Failed_Status (- 2))] \<and>
   map_of (job_task_map
      (run ex_awaiting [Cancel_Requested 0, Job_Removed ''/job/1'' (- 2), Job_Proxy_Reply 0 (Inr 0)]))
      ''/job/1'' = None \<and>
   job_to_remove_status_map
      (run ex_awaiting [Cancel_Requested 0, Job_Removed ''/job/1'' (- 2), Job_Proxy_Reply 0 (Inr 0)])
      ''/job/1'' = None \<and>
   job_to_cancel_task_map
      (run ex_awaiting [Cancel_Requested 0, Job_Removed ''/job/1'' (- 2), Job_Proxy_Reply 0 (Inr 0)])
      ''/job/1'' = None"
proof -
  have m: "mset [Cancel_Requested 0, Job_Removed ''/job/1'' (- 2), Job_Proxy_Reply 0 (Inr 0)] =
           mset [Job_Proxy_Reply 0 (Inr 0), Job_Removed ''/job/1'' (- 2), Cancel_Requested 0]"
    by simp
  show ?thesis
    using job_events_any_order [of 0 ex_awaiting "''/job/1''" _ 0 "- 2" 0, OF _ _ _ _ _ _ m]
    by (simp add: ex_awaiting_facts)
qed

section \<open>Items and the cache\<close>

lemma same_but_items_refl: "same_but_items self self"
  by (simp add: same_but_items_def)

lemma same_but_items_trans: "same_but_items a b \<Longrightarrow> same_but_items b c \<Longrightarrow> same_but_items a c"
  by (simp add: same_but_items_def)

lemma get_or_create_same: "same_but_items self (snd (get_or_create_app_for_target self target))"
  by (simp add: same_but_items_def get_or_create_app_for_target_def Let_def split: option.splits)

lemma get_or_create_cache_inv:
  assumes "cache_inv self" and "get_or_create_app_for_target self target = (r, s')"
  shows "cache_inv s'"
  using assms
  unfolding cache_inv_def get_or_create_app_for_target_def Let_def
  by (auto split: option.splits if_splits) (force+)

lemma get_or_create_cache:
  assumes "get_or_create_app_for_target self target = (r, s')"
  shows "n_apps self \<le> n_apps s'"
    and "plugin_cache self k = Some a \<Longrightarrow> plugin_cache s' k = Some a"
    and "plugin_cache s' k = Some a \<Longrightarrow> plugin_cache self k = Some a \<or> n_apps self \<le> a"
    and "r = Some a \<Longrightarrow> plugin_cache s' (t_name target) = Some a"
  using assms
  by (auto simp: get_or_create_app_for_target_def Let_def split: option.splits if_splits)

lemma get_or_create_host:
  "t_class target = ''host'' \<Longrightarrow> fst (get_or_create_app_for_target self target) \<noteq> None"
  by (simp add: get_or_create_app_for_target_def create_app_for_target_def Let_def split: option.splits)

lemma items_grow_refl: "items_grow self self"
  by (simp add: items_grow_def same_but_items_refl)

lemma items_grow_trans:
  assumes "items_grow a b" and "items_grow b c"
  shows "items_grow a c"
  unfolding items_grow_def
proof (intro conjI allI impI)
  show "same_but_items a c"
    using assms same_but_items_trans by (auto simp: items_grow_def)
  show "n_apps a \<le> n_apps c"
    using assms by (auto simp: items_grow_def)
  show "\<And>k x. plugin_cache a k = Some x \<Longrightarrow> plugin_cache c k = Some x"
    using assms by (auto simp: items_grow_def)
  show "\<And>k x. plugin_cache c k = Some x \<Longrightarrow> plugin_cache a k = Some x \<or> n_apps a \<le> x"
  proof -
    fix k x assume "plugin_cache c k = Some x"
    with assms(2) have "plugin_cache b k = Some x \<or> n_apps b \<le> x"
      by (auto simp: items_grow_def)
    moreover have "n_apps a \<le> n_apps b" using assms(1) by (simp add: items_grow_def)
    moreover have "plugin_cache b k = Some x \<Longrightarrow> plugin_cache a k = Some x \<or> n_apps a \<le> x"
      using assms(1) by (auto simp: items_grow_def)
    ultimately show "plugin_cache a k = Some x \<or> n_apps a \<le> x" by auto
  qed
  show "cache_inv a \<Longrightarrow> cache_inv c"
    using assms by (auto simp: items_grow_def)
qed

lemma get_or_create_grows:
  "get_or_create_app_for_target self target = (r, s') \<Longrightarrow> items_grow self s'"
  unfolding items_grow_def
  using get_or_create_same [of self target] get_or_create_cache_inv [of self target r s']
    get_or_create_cache(1,2,3) [of self target r s']
  by auto
lemma list_apps_loop_Cons:
  "list_apps_loop query ((key, target) # rest) self list =
     (case get_or_create_app_for_target self target of
        (None, s1) \<Rightarrow> list_apps_loop query rest s1 list
      | (Some app, s1) \<Rightarrow>
          list_apps_loop query rest s1
            (if t_class target \<noteq> ''host'' \<and> query_matches query target
             then gs_app_list_add list app else list))"
  by (auto simp: query_matches_def split: prod.splits option.splits)

lemma list_apps_loop_props:
  assumes "list_apps_loop query tm self list = (s', list')"
  shows "items_grow self s' \<and>
         (\<forall>a \<in> set list'. a \<in> set list \<or>
            (\<exists>kv \<in> set tm. t_class (snd kv) \<noteq> ''host'' \<and> plugin_cache s' (t_name (snd kv)) = Some a))"
  using assms
proof (induction tm arbitrary: self list)
  case Nil
  then show ?case by (simp add: items_grow_refl)
next
  case (Cons kv rest)
  obtain key target where kv: "kv = (key, target)" by (cases kv)
  obtain r s1 where goc: "get_or_create_app_for_target self target = (r, s1)"
    by (cases "get_or_create_app_for_target self target")
  have g1: "items_grow self s1" using goc by (rule get_or_create_grows)
  define list1 where "list1 =
    (case r of None \<Rightarrow> list
     | Some app \<Rightarrow> if t_class target \<noteq> ''host'' \<and> query_matches query target
                   then gs_app_list_add list app else list)"
  have rest: "list_apps_loop query rest s1 list1 = (s', list')"
    using Cons.prems unfolding kv list_apps_loop_Cons goc list1_def
    by (cases r) (simp_all split: if_splits)
  from Cons.IH [OF rest] have g2: "items_grow s1 s'"
    and l: "\<forall>a \<in> set list'. a \<in> set list1 \<or>
              (\<exists>kv \<in> set rest. t_class (snd kv) \<noteq> ''host'' \<and> plugin_cache s' (t_name (snd kv)) = Some a)"
    by auto
  have grow: "items_grow self s'" using g1 g2 by (rule items_grow_trans)
  have "a \<in> set list \<or>
        (\<exists>kv \<in> set (kv # rest). t_class (snd kv) \<noteq> ''host'' \<and> plugin_cache s' (t_name (snd kv)) = Some a)"
    if a: "a \<in> set list'" for a
  proof -
    from l a consider (old) "a \<in> set list1"
      | (later) "\<exists>kv \<in> set rest. t_class (snd kv) \<noteq> ''host'' \<and> plugin_cache s' (t_name (snd kv)) = Some a"
      by auto
    then show ?thesis
    proof cases
      case later
      then show ?thesis by auto
    next
      case old
      show ?thesis
      proof (cases "a \<in> set list")
        case True
        then show ?thesis by simp
      next
        case False
        with old have r: "r = Some a" and cls: "t_class target \<noteq> ''host''"
          by (auto simp: list1_def gs_app_list_add_def split: option.splits if_splits)
        from goc r have "plugin_cache s1 (t_name target) = Some a"
          by (simp add: get_or_create_cache(4))
        with g2 have "plugin_cache s' (t_name target) = Some a"
          by (simp add: items_grow_def)
        with cls show ?thesis by (simp add: kv)
      qed
    qed
  qed
  with grow show ?case by blast
qed

lemma list_distro_upgrades_loop_props:
  assumes "list_distro_upgrades_loop tm self list = (s', list')"
  shows "items_grow self s' \<and> set list \<subseteq> set list' \<and>
         (\<forall>a \<in> set list'. a \<in> set list \<or>
            (\<exists>kv \<in> set tm. t_class (snd kv) = ''host'' \<and> latest_version (snd kv) \<noteq> '''' \<and>
               plugin_cache s' (t_name (snd kv)) = Some a)) \<and>
         (\<forall>kv \<in> set tm. t_class (snd kv) = ''host'' \<and> latest_version (snd kv) \<noteq> '''' \<longrightarrow>
            (\<exists>a \<in> set list'. plugin_cache s' (t_name (snd kv)) = Some a))"
  using assms
proof (induction tm arbitrary: self list)
  case Nil
  then show ?case by (simp add: items_grow_refl)
next
  case (Cons kv rest)
  obtain key target where kv: "kv = (key, target)" by (cases kv)
  show ?case
  proof (cases "t_class target = ''host'' \<and> latest_version target \<noteq> ''''")
    case False
    then have rest: "list_distro_upgrades_loop rest self list = (s', list')"
      using Cons.prems unfolding kv by (auto split: if_splits)
    from Cons.IH [OF rest] False show ?thesis unfolding kv by auto
  next
    case True
    obtain r s1 where goc: "get_or_create_app_for_target self target = (r, s1)"
      by (cases "get_or_create_app_for_target self target")
    from True get_or_create_host [of target self] goc obtain app where r: "r = Some app"
      by auto
    have g1: "items_grow self s1" using goc by (rule get_or_create_grows)
    have rest: "list_distro_upgrades_loop rest s1 (gs_app_list_add list app) = (s', list')"
      using Cons.prems True unfolding kv by (simp add: goc r)
    from Cons.IH [OF rest] have g2: "items_grow s1 s'"
      and sub: "set (gs_app_list_add list app) \<subseteq> set list'"
      and l: "\<forall>a \<in> set list'. a \<in> set (gs_app_list_add list app) \<or>
                (\<exists>kv \<in> set rest. t_class (snd kv) = ''host'' \<and> latest_version (snd kv) \<noteq> '''' \<and>
                   plugin_cache s' (t_name (snd kv)) = Some a)"
      and c: "\<forall>kv \<in> set rest. t_class (snd kv) = ''host'' \<and> latest_version (snd kv) \<noteq> '''' \<longrightarrow>
                (\<exists>a \<in> set list'. plugin_cache s' (t_name (snd kv)) = Some a)"
      by auto
    have grow: "items_grow self s'" using g1 g2 by (rule items_grow_trans)
    have cached: "plugin_cache s' (t_name target) = Some app"
      using goc r g2 get_or_create_cache(4) [of self target r s1 app] by (simp add: items_grow_def)
    have app_in: "app \<in> set list'" using sub by (auto simp: gs_app_list_add_def split: if_splits)
    have sub': "set list \<subseteq> set list'" using sub by (auto simp: gs_app_list_add_def split: if_splits)
    have l': "\<forall>a \<in> set list'. a \<in> set list \<or>
                (\<exists>kv \<in> set (kv # rest). t_class (snd kv) = ''host'' \<and> latest_version (snd kv) \<noteq> '''' \<and>
                   plugin_cache s' (t_name (snd kv)) = Some a)"
    proof
      fix a assume "a \<in> set list'"
      with l have "a \<in> set (gs_app_list_add list app) \<or>
                (\<exists>kv \<in> set rest. t_class (snd kv) = ''host'' \<and> latest_version (snd kv) \<noteq> '''' \<and>
                   plugin_cache s' (t_name (snd kv)) = Some a)" by blast
      then show "a \<in> set list \<or>
                (\<exists>kv \<in> set (kv # rest). t_class (snd kv) = ''host'' \<and> latest_version (snd kv) \<noteq> '''' \<and>
                   plugin_cache s' (t_name (snd kv)) = Some a)"
        using True cached unfolding kv
        by (auto simp: gs_app_list_add_def split: if_splits)
    qed
    have c': "\<forall>kv \<in> set (kv # rest). t_class (snd kv) = ''host'' \<and> latest_version (snd kv) \<noteq> '''' \<longrightarrow>
                (\<exists>a \<in> set list'. plugin_cache s' (t_name (snd kv)) = Some a)"
      using c cached app_in unfolding kv by auto
    from grow sub' l' c' show ?thesis by blast
  qed
qed

section \<open>What each operation leaves untouched\<close>

lemma frame_refresh_metadata_async:
  "tracked_fields (refresh_metadata_async self a b c) = tracked_fields self"
  by (simp add: tracked_fields_def refresh_metadata_async_def store_defs Let_def)

lemma frame_refresh_metadata_finish:
  "tracked_fields (fst (refresh_metadata_finish self task)) = tracked_fields self"
  by (simp add: tracked_fields_def refresh_metadata_finish_def)

lemma frame_refresh_metadata_iter:
  "tracked_fields (refresh_metadata_iter self task) = tracked_fields self"
  by (simp add: tracked_fields_def refresh_metadata_iter_def store_defs Let_def
        split: list.splits option.splits)

lemma frame_update_target_async:
  "tracked_fields (update_target_async self app path c parent) = tracked_fields self"
  by (simp add: tracked_fields_def update_target_async_def store_defs Let_def lookup_target_by_app_def
        split: option.splits)

lemma frame_update_apps_iter:
  "tracked_fields (update_apps_iter self task) = tracked_fields self"
proof -
  have a: "\<And>s f. tracked_fields (update_apps_data_update s task f) = tracked_fields s"
    by (simp add: tracked_fields_def update_apps_data_update_def)
  have b: "\<And>s r. tracked_fields (update_apps_return s task r) = tracked_fields s"
    by (simp add: update_apps_return_def a)
  show ?thesis
    by (simp add: update_apps_iter_def Let_def a b frame_update_target_async
          split: list.splits option.splits)
qed

lemma frame_update_apps_async:
  "update_apps_async self apps flags c = Some s' \<Longrightarrow> tracked_fields s' = tracked_fields self"
proof -
  have a: "\<And>s task f. tracked_fields (update_apps_data_update s task f) = tracked_fields s"
    by (simp add: tracked_fields_def update_apps_data_update_def)
  have b: "\<And>s task r. tracked_fields (update_apps_return s task r) = tracked_fields s"
    by (simp add: update_apps_return_def a)
  assume "update_apps_async self apps flags c = Some s'"
  then show ?thesis
    by (auto simp: update_apps_async_def Let_def a b frame_update_apps_iter split: if_splits)
       (simp_all add: tracked_fields_def)
qed

lemma frame_update_apps_update_target_cb:
  "tracked_fields (update_apps_update_target_cb self task) = tracked_fields self"
proof -
  have a: "\<And>s task f. tracked_fields (update_target_data_update s task f) = tracked_fields s"
    by (simp add: tracked_fields_def update_target_data_update_def)
  have b: "\<And>s task r. tracked_fields (update_apps_return s task r) = tracked_fields s"
    by (simp add: tracked_fields_def update_apps_return_def update_apps_data_update_def)
  show ?thesis
    by (simp add: update_apps_update_target_cb_def Let_def a b frame_update_apps_iter
          split: option.splits sum.splits)
qed

lemma frame_update_replies:
  "tracked_fields (update_target_proxy_new_cb self task r) = tracked_fields self"
  "tracked_fields (update_target_update_cb self task r') = tracked_fields self"
  "tracked_fields (update_target_notify_progress_cb self task p) = tracked_fields self"
  "tracked_fields (cancel_job_cancel_cb self ct r'') = tracked_fields self"
  "tracked_fields (cancel_job self app) = tracked_fields self"
  by (simp_all add: tracked_fields_def update_target_proxy_new_cb_def update_target_update_cb_def
        update_target_notify_progress_cb_def cancel_job_cancel_cb_def cancel_job_frame store_defs
        split: sum.splits)

lemma frame_cancel_requested:
  "tracked_fields (step self (Cancel_Requested task)) = tracked_fields self"
  by (simp add: update_apps_cancelled_cb_def Let_def frame_update_replies g_cancellable_cancel_def
        split: option.splits)
     (simp add: tracked_fields_def)

section \<open>Replacing the snapshot of targets\<close>

lemma map_of_mark_all_invalid:
  "map_of (mark_all_invalid tm) k = map_option (\<lambda>t. t\<lparr>is_valid := False\<rparr>) (map_of tm k)"
  by (induction tm) (auto simp: mark_all_invalid_def)

lemma keys_mark_all_invalid: "map fst (mark_all_invalid tm) = map fst tm"
  by (induction tm) (auto simp: mark_all_invalid_def)

lemma distinct_insert_listed:
  "distinct (map fst tm) \<Longrightarrow> distinct (map fst (insert_listed listing tm))"
  unfolding insert_listed_def
  by (induction listing arbitrary: tm) (auto simp: distinct_update)

lemma map_of_insert_listed_other:
  "k \<notin> listed_names listing \<Longrightarrow> map_of (insert_listed listing tm) k = map_of tm k"
  unfolding insert_listed_def listed_names_def
  by (induction listing arbitrary: tm) (auto simp: update_conv')

lemma map_of_insert_listed_named:
  "k \<in> listed_names listing \<Longrightarrow>
   \<exists>cls path. (cls, k, path) \<in> set listing \<and>
      map_of (insert_listed listing tm) k = Some (target_item_new cls k path)"
  unfolding insert_listed_def listed_names_def
proof (induction listing arbitrary: tm rule: rev_induct)
  case Nil
  then show ?case by simp
next
  case (snoc x listing)
  obtain cls nm path where x: "x = (cls, nm, path)" by (cases x)
  show ?case
  proof (cases "nm = k")
    case True
    then show ?thesis by (auto simp: x update_conv')
  next
    case False
    with snoc.prems have "k \<in> (\<lambda>(cls, nm, path). nm) ` set listing" by (auto simp: x)
    from snoc.IH [OF this, of tm] False show ?thesis by (auto simp: x update_conv')
  qed
qed

lemma cache_remove_invalid_lookup:
  "cache_remove_invalid tm cache k =
     (if \<exists>t. (k, t) \<in> set tm \<and> \<not> is_valid t then None else cache k)"
  unfolding cache_remove_invalid_def
  by (induction tm arbitrary: cache) (auto split: if_splits)
lemma list_targets_cb_fields:
  "tracked_fields (refresh_metadata_list_targets_cb self task (Inr listing)) =
     (filter (\<lambda>kv. is_valid (snd kv)) (insert_listed listing (mark_all_invalid (target_item_map self))),
      cache_remove_invalid (insert_listed listing (mark_all_invalid (target_item_map self))) (plugin_cache self),
      n_apps self, job_task_map self, job_to_remove_status_map self)"
proof -
  have a: "\<And>s f. tracked_fields (refresh_data_update s task f) = tracked_fields s"
    by (simp add: tracked_fields_def refresh_data_update_def)
  show ?thesis
    by (simp add: refresh_metadata_list_targets_cb_def Let_def frame_refresh_metadata_iter a
          check_to_be_removed_def)
       (simp add: tracked_fields_def)
qed

lemma list_targets_cb_app_store:
  "app_store (refresh_metadata_list_targets_cb self task r) = app_store self"
  by (simp add: refresh_metadata_list_targets_cb_def refresh_metadata_iter_def Let_def store_defs
        split: sum.splits list.splits option.splits)

lemma replaced_entry:
  assumes "distinct (map fst tm)"
  shows "(k, t) \<in> set (filter (\<lambda>kv. is_valid (snd kv)) (insert_listed listing (mark_all_invalid tm))) \<longleftrightarrow>
         k \<in> listed_names listing \<and> map_of (insert_listed listing (mark_all_invalid tm)) k = Some t"
proof -
  let ?tm2 = "insert_listed listing (mark_all_invalid tm)"
  have d: "distinct (map fst ?tm2)"
    using assms by (simp add: distinct_insert_listed keys_mark_all_invalid)
  have mem: "(k, t) \<in> set ?tm2 \<longleftrightarrow> map_of ?tm2 k = Some t"
    using d by simp
  show ?thesis
  proof (cases "k \<in> listed_names listing")
    case True
    from map_of_insert_listed_named [OF True, of "mark_all_invalid tm"]
    obtain cls path where "map_of ?tm2 k = Some (target_item_new cls k path)" by blast
    then show ?thesis using True mem by (auto simp: target_item_new_def)
  next
    case False
    then have "map_of ?tm2 k = map_option (\<lambda>t. t\<lparr>is_valid := False\<rparr>) (map_of tm k)"
      by (simp add: map_of_insert_listed_other map_of_mark_all_invalid)
    then show ?thesis using False mem by auto
  qed
qed

lemma removed_key:
  assumes "distinct (map fst tm)"
  shows "(\<exists>t. (k, t) \<in> set (insert_listed listing (mark_all_invalid tm)) \<and> \<not> is_valid t) \<longleftrightarrow>
         k \<in> fst ` set tm \<and> k \<notin> listed_names listing"
proof -
  let ?tm2 = "insert_listed listing (mark_all_invalid tm)"
  have d: "distinct (map fst ?tm2)"
    using assms by (simp add: distinct_insert_listed keys_mark_all_invalid)
  have mem: "\<And>t. (k, t) \<in> set ?tm2 \<longleftrightarrow> map_of ?tm2 k = Some t"
    using d by simp
  show ?thesis
  proof (cases "k \<in> listed_names listing")
    case True
    from map_of_insert_listed_named [OF True, of "mark_all_invalid tm"]
    obtain cls path where "map_of ?tm2 k = Some (target_item_new cls k path)" by blast
    then show ?thesis using True mem by (auto simp: target_item_new_def)
  next
    case False
    then have m: "map_of ?tm2 k = map_option (\<lambda>t. t\<lparr>is_valid := False\<rparr>) (map_of tm k)"
      by (simp add: map_of_insert_listed_other map_of_mark_all_invalid)
    have "k \<in> fst ` set tm \<longleftrightarrow> map_of tm k \<noteq> None"
      by (simp add: map_of_eq_None_iff)
    with m False mem show ?thesis by auto
  qed
qed

lemma replace_snapshot:
  assumes "distinct (map fst (target_item_map self))"
  shows "distinct (map fst (target_item_map (refresh_metadata_list_targets_cb self task (Inr listing))))"
    and "(k, t) \<in> set (target_item_map (refresh_metadata_list_targets_cb self task (Inr listing))) \<Longrightarrow>
           \<exists>cls path. (cls, k, path) \<in> set listing \<and> t = target_item_new cls k path"
    and "fst ` set (target_item_map (refresh_metadata_list_targets_cb self task (Inr listing))) =
           listed_names listing"
    and "plugin_cache (refresh_metadata_list_targets_cb self task (Inr listing)) k =
           (if k \<in> fst ` set (target_item_map self) \<and> k \<notin> listed_names listing then None
            else plugin_cache self k)"
    and "n_apps (refresh_metadata_list_targets_cb self task (Inr listing)) = n_apps self"
proof -
  let ?s1 = "refresh_metadata_list_targets_cb self task (Inr listing)"
  let ?tm2 = "insert_listed listing (mark_all_invalid (target_item_map self))"
  from list_targets_cb_fields [of self task listing]
  have tm: "target_item_map ?s1 = filter (\<lambda>kv. is_valid (snd kv)) ?tm2"
    and cache: "plugin_cache ?s1 = cache_remove_invalid ?tm2 (plugin_cache self)"
    and n: "n_apps ?s1 = n_apps self"
    by (simp_all add: tracked_fields_def)
  have d: "distinct (map fst ?tm2)"
    using assms by (simp add: distinct_insert_listed keys_mark_all_invalid)
  show "distinct (map fst (target_item_map ?s1))"
    unfolding tm using d by (simp add: distinct_map_filter)
  show "\<exists>cls path. (cls, k, path) \<in> set listing \<and> t = target_item_new cls k path"
    if "(k, t) \<in> set (target_item_map ?s1)"
  proof -
    from that have k: "k \<in> listed_names listing" and m: "map_of ?tm2 k = Some t"
      unfolding tm using replaced_entry [OF assms] by auto
    from map_of_insert_listed_named [OF k, of "mark_all_invalid (target_item_map self)"] m
    show ?thesis by auto
  qed
  show "fst ` set (target_item_map ?s1) = listed_names listing"
  proof (intro set_eqI iffI)
    fix k assume "k \<in> fst ` set (target_item_map ?s1)"
    then obtain t where "(k, t) \<in> set (target_item_map ?s1)" by auto
    then show "k \<in> listed_names listing"
      unfolding tm using replaced_entry [OF assms] by auto
  next
    fix k assume k: "k \<in> listed_names listing"
    from map_of_insert_listed_named [OF k, of "mark_all_invalid (target_item_map self)"]
    obtain t where "map_of ?tm2 k = Some t" by blast
    with k have "(k, t) \<in> set (target_item_map ?s1)"
      unfolding tm using replaced_entry [OF assms] by auto
    then show "k \<in> fst ` set (target_item_map ?s1)" by force
  qed
  show "plugin_cache ?s1 k =
          (if k \<in> fst ` set (target_item_map self) \<and> k \<notin> listed_names listing then None
           else plugin_cache self k)"
    unfolding cache cache_remove_invalid_lookup using removed_key [OF assms, of k listing] by simp
  show "n_apps ?s1 = n_apps self" by (rule n)
qed

section \<open>The invariants hold in every reachable state\<close>

lemma inv_tracked:
  assumes "tracked_fields s' = tracked_fields self"
  shows "targets_inv s' = targets_inv self" and "cache_inv s' = cache_inv self"
    and "job_tables_inv s' = job_tables_inv self" and "plugin_inv s' = plugin_inv self"
  using assms
  by (simp_all add: tracked_fields_def targets_inv_def cache_inv_def job_tables_inv_def plugin_inv_def)

lemma plugin_inv_new: "plugin_inv (plugin_new pretty_name version)"
  by (simp add: plugin_inv_def targets_inv_def cache_inv_def job_tables_inv_def plugin_new_def)

lemma items_grow_inv:
  assumes "items_grow self s'" and "plugin_inv self"
  shows "plugin_inv s'"
  using assms
  by (simp add: items_grow_def same_but_items_def plugin_inv_def targets_inv_def job_tables_inv_def)

lemma list_apps_async_grows: "items_grow self (fst (list_apps_async self query))"
proof (cases query)
  case None
  then show ?thesis by (simp add: list_apps_async_def items_grow_refl)
next
  case (Some q)
  obtain s1 l where loop: "list_apps_loop q (target_item_map self) self [] = (s1, l)"
    by (cases "list_apps_loop q (target_item_map self) self []")
  from list_apps_loop_props [OF loop] have "items_grow self s1" by simp
  with Some loop show ?thesis
    by (simp add: list_apps_async_def items_grow_refl)
qed

lemma list_distro_upgrades_async_grows: "items_grow self (fst (list_distro_upgrades_async self))"
proof -
  obtain s1 l where loop: "list_distro_upgrades_loop (target_item_map self) self [] = (s1, l)"
    by (cases "list_distro_upgrades_loop (target_item_map self) self []")
  from list_distro_upgrades_loop_props [OF loop] have "items_grow self s1" by simp
  with loop show ?thesis by (simp add: list_distro_upgrades_async_def)
qed

lemma list_targets_cb_inv:
  assumes "plugin_inv self"
  shows "plugin_inv (refresh_metadata_list_targets_cb self task r)"
proof (cases r)
  case (Inl e)
  have "tracked_fields (refresh_metadata_list_targets_cb self task (Inl e)) = tracked_fields self"
    by (simp add: refresh_metadata_list_targets_cb_def tracked_fields_def store_defs)
  from inv_tracked(4) [OF this] assms Inl show ?thesis by simp
next
  case (Inr listing)
  let ?s1 = "refresh_metadata_list_targets_cb self task (Inr listing)"
  from assms have d: "distinct (map fst (target_item_map self))"
    by (simp add: plugin_inv_def targets_inv_def)
  have t: "targets_inv ?s1"
    unfolding targets_inv_def
  proof (intro conjI ballI)
    show "distinct (map fst (target_item_map ?s1))" by (rule replace_snapshot(1) [OF d])
    fix kv assume "kv \<in> set (target_item_map ?s1)"
    then have "(fst kv, snd kv) \<in> set (target_item_map ?s1)" by simp
    from replace_snapshot(2) [OF d this] show "t_name (snd kv) = fst kv"
      by (auto simp: target_item_new_def)
  qed
  have sub: "\<And>k a. plugin_cache ?s1 k = Some a \<Longrightarrow> plugin_cache self k = Some a"
    by (simp add: replace_snapshot(4) [OF d] split: if_splits)
  have c: "cache_inv ?s1"
    unfolding cache_inv_def
  proof (intro conjI allI impI)
    fix k a assume "plugin_cache ?s1 k = Some a"
    then have "plugin_cache self k = Some a" by (rule sub)
    with assms show "a < n_apps ?s1"
      by (simp add: replace_snapshot(5) [OF d] plugin_inv_def cache_inv_def)
  next
    fix k k' a assume "plugin_cache ?s1 k = Some a" and "plugin_cache ?s1 k' = Some a"
    then have "plugin_cache self k = Some a" and "plugin_cache self k' = Some a"
      by (auto dest: sub)
    with assms show "k = k'"
      unfolding plugin_inv_def cache_inv_def by blast
  qed
  have j: "job_tables_inv ?s1"
    using assms list_targets_cb_fields [of self task listing]
    by (simp add: plugin_inv_def job_tables_inv_def tracked_fields_def)
  from t c j Inr show ?thesis by (simp add: plugin_inv_def)
qed

lemma target_update_inv:
  assumes "plugin_inv self" and "\<And>t. t_name (f t) = t_name t"
  shows "plugin_inv (target_update self key f)"
proof -
  have "map fst (map (\<lambda>(k, target). if k = key then (k, f target) else (k, target)) xs) = map fst xs" for xs
    by (induction xs) auto
  then have keys: "map fst (target_item_map (target_update self key f)) = map fst (target_item_map self)"
    by (simp add: target_update_def)
  have names: "\<forall>kv \<in> set (target_item_map (target_update self key f)). t_name (snd kv) = fst kv"
    using assms by (auto simp: target_update_def plugin_inv_def targets_inv_def)
  have rest: "plugin_cache (target_update self key f) = plugin_cache self"
    "n_apps (target_update self key f) = n_apps self"
    "job_task_map (target_update self key f) = job_task_map self"
    "job_to_remove_status_map (target_update self key f) = job_to_remove_status_map self"
    by (simp_all add: target_update_def)
  from assms(1) keys names rest show ?thesis
    by (simp add: plugin_inv_def targets_inv_def cache_inv_def job_tables_inv_def)
qed
lemma refresh_replies_inv:
  assumes "plugin_inv self"
  shows "plugin_inv (refresh_metadata_proxy_new_cb self task r)"
    and "plugin_inv (refresh_metadata_get_version_cb self task r')"
proof -
  have issue: "\<And>s c. tracked_fields (remote_call_issue s c) = tracked_fields s"
    by (simp add: tracked_fields_def remote_call_issue_def)
  have ret: "\<And>s e. tracked_fields (refresh_return s task e) = tracked_fields s"
    by (simp add: tracked_fields_def refresh_return_def refresh_data_update_def)
  have upd: "\<And>key. plugin_inv (target_update self key (\<lambda>t. t\<lparr>t_proxy := True\<rparr>))"
    using assms by (rule target_update_inv) simp
  have upd': "\<And>key v. plugin_inv (target_update self key (\<lambda>t. t\<lparr>current_version := v\<rparr>))"
    using assms by (rule target_update_inv) simp
  show "plugin_inv (refresh_metadata_proxy_new_cb self task r)"
    using assms upd
    by (auto simp: refresh_metadata_proxy_new_cb_def Let_def inv_tracked(4) [OF issue]
          inv_tracked(4) [OF ret] split: sum.splits option.splits)
  show "plugin_inv (refresh_metadata_get_version_cb self task r')"
    using assms upd'
    by (auto simp: refresh_metadata_get_version_cb_def Let_def inv_tracked(4) [OF issue]
          inv_tracked(4) [OF ret] split: sum.splits option.splits)
qed

lemma check_new_cb_inv:
  assumes "plugin_inv self"
  shows "plugin_inv (refresh_metadata_check_new_cb self task r)"
proof (cases r)
  case (Inl e)
  have "tracked_fields (refresh_return self task (Inl e)) = tracked_fields self"
    by (simp add: tracked_fields_def refresh_return_def refresh_data_update_def)
  from inv_tracked(4) [OF this] assms Inl show ?thesis
    by (simp add: refresh_metadata_check_new_cb_def)
next
  case (Inr v)
  show ?thesis
  proof (cases "rm_target (refresh_tasks self task)")
    case None
    with Inr assms show ?thesis by (simp add: refresh_metadata_check_new_cb_def)
  next
    case (Some key)
    let ?s1 = "target_update self key (\<lambda>t. t\<lparr>latest_version := v\<rparr>)"
    have s1: "plugin_inv ?s1" using assms by (rule target_update_inv) simp
    show ?thesis
    proof (cases "map_of (target_item_map ?s1) key")
      case None
      with Inr Some s1 show ?thesis by (simp add: refresh_metadata_check_new_cb_def Let_def)
    next
      case found: (Some target)
      obtain a s2 where goc: "get_or_create_app_for_target ?s1 target = (a, s2)"
        by (cases "get_or_create_app_for_target ?s1 target")
      from get_or_create_grows [OF goc] s1 have s2: "plugin_inv s2" by (rule items_grow_inv)
      have upd: "\<And>app f. tracked_fields (app_update s2 app f) = tracked_fields s2"
        by (simp add: tracked_fields_def app_update_def)
      have "plugin_inv (refresh_metadata_iter s2 task)"
        using inv_tracked(4) [OF frame_refresh_metadata_iter [of s2 task]] s2 by simp
      moreover have "plugin_inv (refresh_metadata_iter (app_update s2 app f) task)" for app f
        using inv_tracked(4) [OF frame_refresh_metadata_iter [of "app_update s2 app f" task]]
          inv_tracked(4) [OF upd [of app f]] s2 by simp
      ultimately show ?thesis
        using Inr Some found goc
        by (cases a) (simp_all add: refresh_metadata_check_new_cb_def Let_def)
    qed
  qed
qed

lemma remove_job_apply_fields:
  "tracked_fields (remove_job_apply self task job_path st) =
     (target_item_map self, plugin_cache self, n_apps self,
      AList.delete job_path (job_task_map self), (job_to_remove_status_map self)(job_path := None))"
  by (simp add: tracked_fields_def remove_job_apply_def Let_def app_update_def cancel_job_revoke_def
        update_target_return_def update_target_data_update_def split: option.splits)

lemma remove_job_apply_inv:
  assumes "targets_inv self" and "cache_inv self"
      and "\<forall>p \<in> fst ` set (job_task_map self). p \<noteq> job_path \<longrightarrow> job_to_remove_status_map self p = None"
  shows "plugin_inv (remove_job_apply self task job_path st)"
proof -
  from remove_job_apply_fields [of self task job_path st]
  have f: "target_item_map (remove_job_apply self task job_path st) = target_item_map self"
      "plugin_cache (remove_job_apply self task job_path st) = plugin_cache self"
      "n_apps (remove_job_apply self task job_path st) = n_apps self"
      "job_task_map (remove_job_apply self task job_path st) = AList.delete job_path (job_task_map self)"
      "job_to_remove_status_map (remove_job_apply self task job_path st) =
         (job_to_remove_status_map self)(job_path := None)"
    by (simp_all add: tracked_fields_def)
  have "job_tables_inv (remove_job_apply self task job_path st)"
    unfolding job_tables_inv_def f
  proof
    fix p assume "p \<in> fst ` set (AList.delete job_path (job_task_map self))"
    with dom_delete_subset [of job_path "job_task_map self"]
    have "p \<in> fst ` set (job_task_map self)" by blast
    with assms(3) show "((job_to_remove_status_map self)(job_path := None)) p = None"
      by (cases "p = job_path") auto
  qed
  moreover have "targets_inv (remove_job_apply self task job_path st)"
    using assms(1) by (simp add: targets_inv_def f)
  moreover have "cache_inv (remove_job_apply self task job_path st)"
    using assms(2) by (simp add: cache_inv_def f)
  ultimately show ?thesis by (simp add: plugin_inv_def)
qed

lemma remove_job_inv:
  assumes "plugin_inv self"
  shows "plugin_inv (remove_job self job_path st)"
proof (cases "job_to_remove_status_map self job_path \<noteq> None")
  case True
  with assms show ?thesis by (simp add: remove_job_def)
next
  case False
  show ?thesis
  proof (cases "map_of (job_task_map self) job_path")
    case None
    then have notin: "job_path \<notin> fst ` set (job_task_map self)"
      by (simp add: map_of_eq_None_iff)
    have "tracked_fields (remove_job self job_path st) =
            (target_item_map self, plugin_cache self, n_apps self, job_task_map self,
             (job_to_remove_status_map self)(job_path \<mapsto> st))"
      using False None
      by (simp add: remove_job_def tracked_fields_def cancel_job_revoke_def split: option.splits)
    with assms notin show ?thesis
      by (auto simp: plugin_inv_def targets_inv_def cache_inv_def job_tables_inv_def tracked_fields_def)
  next
    case (Some task)
    have "plugin_inv (remove_job_apply self task job_path st)"
      using assms by (intro remove_job_apply_inv) (auto simp: plugin_inv_def job_tables_inv_def)
    with False Some show ?thesis by (simp add: remove_job_def)
  qed
qed

lemma job_proxy_new_cb_inv:
  assumes "plugin_inv self"
  shows "plugin_inv (update_target_job_proxy_new_cb self task r)"
proof (cases "ut_job_path (update_target_tasks self task)")
  case None
  with assms show ?thesis by (simp add: update_target_job_proxy_new_cb_def)
next
  case (Some job_path)
  show ?thesis
  proof (cases r)
    case (Inl e)
    have "tracked_fields (update_target_job_proxy_new_cb self task (Inl e)) =
            (target_item_map self, plugin_cache self, n_apps self, job_task_map self,
             (job_to_remove_status_map self)(job_path := None))"
      using Some
      by (simp add: update_target_job_proxy_new_cb_def tracked_fields_def cancel_job_revoke_def
            remove_job_revoke_def update_target_return_def update_target_data_update_def Let_def
            split: option.splits)
    with assms Inl show ?thesis
      by (auto simp: plugin_inv_def targets_inv_def cache_inv_def job_tables_inv_def tracked_fields_def)
  next
    case (Inr progress)
    define s3 where "s3 =
      (let s1 = update_target_data_update self task (\<lambda>d. d\<lparr>ut_job_proxy := True\<rparr>);
           s2 = update_target_notify_progress_cb s1 task progress
       in s2\<lparr>job_task_map := AList.update job_path task (job_task_map s2)\<rparr>)"
    have f3: "tracked_fields s3 =
            (target_item_map self, plugin_cache self, n_apps self,
             AList.update job_path task (job_task_map self), job_to_remove_status_map self)"
      by (simp add: s3_def Let_def tracked_fields_def update_target_notify_progress_cb_def
            app_update_def update_target_data_update_def)
    have t3: "targets_inv s3" and c3: "cache_inv s3"
      using assms f3 by (simp_all add: plugin_inv_def targets_inv_def cache_inv_def tracked_fields_def)
    have jm3: "job_task_map s3 = AList.update job_path task (job_task_map self)"
      and rm3: "job_to_remove_status_map s3 = job_to_remove_status_map self"
      using f3 by (simp_all add: tracked_fields_def)
    have others: "\<forall>p \<in> fst ` set (job_task_map s3). p \<noteq> job_path \<longrightarrow> job_to_remove_status_map s3 p = None"
      unfolding jm3 rm3 dom_update using assms
      by (auto simp: plugin_inv_def job_tables_inv_def)
    have eq: "update_target_job_proxy_new_cb self task (Inr progress) =
      (case job_to_remove_status_map s3 job_path of
         Some job_status \<Rightarrow> remove_job_apply s3 task job_path job_status
       | None \<Rightarrow>
           (case job_to_cancel_task_map s3 job_path of
              Some cancel_task \<Rightarrow>
                remote_call_issue s3 (Job_Call_Cancel job_path (ct_cancellable cancel_task))
            | None \<Rightarrow>
                if g_cancellable_is_cancelled s3 (ut_cancellable (update_target_tasks self task))
                then cancel_job s3 (ut_app (update_target_tasks self task))
                else s3))"
      using Some
      by (simp add: update_target_job_proxy_new_cb_def s3_def Let_def cong: option.case_cong if_cong)
    show ?thesis
    proof (cases "job_to_remove_status_map s3 job_path")
      case filed: (Some st)
      have "plugin_inv (remove_job_apply s3 task job_path st)"
        using t3 c3 others by (rule remove_job_apply_inv)
      with filed Inr eq show ?thesis by simp
    next
      case None
      with others have j3: "job_tables_inv s3"
        by (auto simp: job_tables_inv_def)
      with t3 c3 have p3: "plugin_inv s3" by (simp add: plugin_inv_def)
      have issue: "\<And>c. plugin_inv (remote_call_issue s3 c)"
        using p3
        by (simp add: plugin_inv_def targets_inv_def cache_inv_def job_tables_inv_def remote_call_issue_def)
      have cancel: "\<And>app. plugin_inv (cancel_job s3 app)"
        using inv_tracked(4) [OF frame_update_replies(5)] p3 by simp
      from None Inr eq p3 issue cancel show ?thesis
        by (simp split: option.splits)
    qed
  qed
qed
lemma step_inv:
  assumes "plugin_inv self"
  shows "plugin_inv (step self ev)"
proof (cases ev)
  case (Refresh_Metadata a b c)
  with assms inv_tracked(4) [OF frame_refresh_metadata_async [of self a b c]] show ?thesis by simp
next
  case (Refresh_Metadata_Finish task)
  with assms inv_tracked(4) [OF frame_refresh_metadata_finish [of self task]] show ?thesis by simp
next
  case (List_Targets_Reply task r)
  with assms list_targets_cb_inv [of self task r] show ?thesis by simp
next
  case (Refresh_Proxy_Reply task r)
  with assms refresh_replies_inv(1) [of self task r] show ?thesis by simp
next
  case (Get_Version_Reply task r)
  with assms refresh_replies_inv(2) [of self task r] show ?thesis by simp
next
  case (Check_New_Reply task r)
  with assms check_new_cb_inv [of self task r] show ?thesis by simp
next
  case (List_Apps query)
  with assms items_grow_inv [OF list_apps_async_grows [of self query]] show ?thesis by simp
next
  case List_Distro_Upgrades
  with assms items_grow_inv [OF list_distro_upgrades_async_grows [of self]] show ?thesis by simp
next
  case (Update_Apps apps flags c)
  show ?thesis
  proof (cases "update_apps_async self apps flags c")
    case None
    with assms Update_Apps show ?thesis by simp
  next
    case (Some s1)
    from inv_tracked(4) [OF frame_update_apps_async [OF Some]] assms Some Update_Apps
    show ?thesis by simp
  qed
next
  case (Target_Proxy_Reply task r)
  with assms inv_tracked(4) [OF frame_update_replies(1) [of self task r]] show ?thesis by simp
next
  case (Update_Reply task r)
  with assms inv_tracked(4) [OF frame_update_replies(2) [of self task r]] show ?thesis by simp
next
  case (Job_Proxy_Reply task r)
  with assms job_proxy_new_cb_inv [of self task r] show ?thesis by simp
next
  case (Progress_Changed task p)
  with assms inv_tracked(4) [OF frame_update_replies(3) [of self task p]] show ?thesis by simp
next
  case (Job_Removed job_path st)
  with assms remove_job_inv [of self job_path st] show ?thesis by simp
next
  case (Cancel_Requested task)
  with assms inv_tracked(4) [OF frame_cancel_requested [of self task]] show ?thesis by simp
next
  case (Cancel_Reply ct r)
  with assms inv_tracked(4) [OF frame_update_replies(4) [of self ct r]] show ?thesis by simp
next
  case (Update_Target_Done task)
  with assms inv_tracked(4) [OF frame_update_apps_update_target_cb [of self task]] show ?thesis by simp
qed


lemma run_append: "run self (events @ events') = run (run self events) events'"
  by (simp add: run_def)

lemma run_inv: "plugin_inv self \<Longrightarrow> plugin_inv (run self events)"
  by (induction events arbitrary: self) (simp_all add: run_def step_inv del: step.simps)

lemma reachable_inv: "reachable self \<Longrightarrow> plugin_inv self"
  unfolding reachable_def using run_inv [OF plugin_inv_new] by auto

lemma reachable_run: "reachable self \<Longrightarrow> reachable (run self events)"
  unfolding reachable_def by (metis run_append)

lemma reachable_examples:
  "reachable ex_visiting" "reachable ex_refreshed" "reachable ex_awaiting" "reachable ex_active"
proof -
  show v: "reachable ex_visiting" unfolding ex_visiting_def reachable_def by blast
  show r: "reachable ex_refreshed" unfolding ex_refreshed_def using v by (rule reachable_run)
  show a: "reachable ex_awaiting" unfolding ex_awaiting_def using r by (rule reachable_run)
  show "reachable ex_active" unfolding ex_active_def using a by (rule reachable_run)
qed

section \<open>The host item and the listings\<close>

lemma list_apps_loop_caches_host:
  assumes "list_apps_loop query tm self list = (s', list')"
      and "(key, target) \<in> set tm" and "t_class target = ''host''"
  shows "\<exists>app. plugin_cache s' (t_name target) = Some app"
  using assms
proof (induction tm arbitrary: self list)
  case Nil
  then show ?case by simp
next
  case (Cons kv rest)
  obtain k t where kv: "kv = (k, t)" by (cases kv)
  obtain r s1 where goc: "get_or_create_app_for_target self t = (r, s1)"
    by (cases "get_or_create_app_for_target self t")
  define list1 where "list1 =
    (case r of None \<Rightarrow> list
     | Some app \<Rightarrow> if t_class t \<noteq> ''host'' \<and> query_matches query t
                   then gs_app_list_add list app else list)"
  have rest: "list_apps_loop query rest s1 list1 = (s', list')"
    using Cons.prems(1) unfolding kv list_apps_loop_Cons goc list1_def
    by (cases r) (simp_all split: if_splits)
  show ?case
  proof (cases "(key, target) \<in> set rest")
    case True
    from Cons.IH [OF rest True Cons.prems(3)] show ?thesis .
  next
    case False
    with Cons.prems(2) have t: "t = target" by (simp add: kv)
    from get_or_create_host [of target self] Cons.prems(3) goc t obtain app where r: "r = Some app"
      by auto
    from goc r t have "plugin_cache s1 (t_name target) = Some app"
      by (simp add: get_or_create_cache(4))
    moreover from list_apps_loop_props [OF rest] have "items_grow s1 s'" by simp
    ultimately show ?thesis by (auto simp: items_grow_def)
  qed
qed

lemma same_target:
  assumes "targets_inv self"
      and "kv \<in> set (target_item_map self)" and "(key, target) \<in> set (target_item_map self)"
      and "t_name (snd kv) = t_name target"
  shows "snd kv = target"
proof -
  from assms(1,2) have "t_name (snd kv) = fst kv" by (simp add: targets_inv_def)
  moreover from assms(1,3) have "t_name target = key" by (auto simp: targets_inv_def)
  ultimately have "fst kv = key" using assms(4) by simp
  then have "(key, snd kv) \<in> set (target_item_map self)" using assms(2) by (cases kv) simp
  with assms(1,3) show ?thesis
    by (meson eq_key_imp_eq_value targets_inv_def)
qed

lemma list_apps_excludes_host:
  assumes "plugin_inv self"
      and "(key, target) \<in> set (target_item_map self)" and "t_class target = ''host''"
      and "list_apps_async self query = (s', Inr list)"
  shows "\<exists>app. plugin_cache s' (t_name target) = Some app \<and> app \<notin> set list"
proof -
  from assms(4) obtain q where q: "query = Some q"
    and loop: "list_apps_loop q (target_item_map self) self [] = (s', list)"
    by (auto simp: list_apps_async_def split: option.splits if_splits prod.splits)
  from list_apps_loop_caches_host [OF loop assms(2,3)]
  obtain app where app: "plugin_cache s' (t_name target) = Some app" by blast
  from list_apps_loop_props [OF loop] have grow: "items_grow self s'"
    and listed: "\<forall>a \<in> set list. \<exists>kv \<in> set (target_item_map self).
                   t_class (snd kv) \<noteq> ''host'' \<and> plugin_cache s' (t_name (snd kv)) = Some a"
    by auto
  from grow assms(1) have inj: "cache_inv s'" by (simp add: items_grow_def plugin_inv_def)
  have "app \<notin> set list"
  proof
    assume "app \<in> set list"
    with listed obtain kv where kv: "kv \<in> set (target_item_map self)"
      and cls: "t_class (snd kv) \<noteq> ''host''"
      and c: "plugin_cache s' (t_name (snd kv)) = Some app" by blast
    from inj c app have "t_name (snd kv) = t_name target"
      unfolding cache_inv_def by blast
    with assms(1,2) kv have "snd kv = target"
      by (intro same_target [of self kv key target]) (simp_all add: plugin_inv_def)
    with cls assms(3) show False by simp
  qed
  with app show ?thesis by blast
qed

lemma list_distro_upgrades_host:
  assumes "plugin_inv self"
      and "(key, target) \<in> set (target_item_map self)" and "t_class target = ''host''"
      and "list_distro_upgrades_async self = (s', upgrades)"
  shows "if latest_version target \<noteq> ''''
         then (\<exists>app \<in> set upgrades. plugin_cache s' (t_name target) = Some app)
         else (\<forall>app. plugin_cache s' (t_name target) = Some app \<longrightarrow> app \<notin> set upgrades)"
proof -
  from assms(4) have loop: "list_distro_upgrades_loop (target_item_map self) self [] = (s', upgrades)"
    by (simp add: list_distro_upgrades_async_def)
  from list_distro_upgrades_loop_props [OF loop] have grow: "items_grow self s'"
    and listed: "\<forall>a \<in> set upgrades. \<exists>kv \<in> set (target_item_map self).
                   t_class (snd kv) = ''host'' \<and> latest_version (snd kv) \<noteq> '''' \<and>
                   plugin_cache s' (t_name (snd kv)) = Some a"
    and complete: "\<forall>kv \<in> set (target_item_map self).
                   t_class (snd kv) = ''host'' \<and> latest_version (snd kv) \<noteq> '''' \<longrightarrow>
                   (\<exists>a \<in> set upgrades. plugin_cache s' (t_name (snd kv)) = Some a)"
    by auto
  from grow assms(1) have inj: "cache_inv s'" by (simp add: items_grow_def plugin_inv_def)
  show ?thesis
  proof (cases "latest_version target \<noteq> ''''")
    case True
    with complete assms(2,3) show ?thesis by force
  next
    case False
    have "app \<notin> set upgrades" if app: "plugin_cache s' (t_name target) = Some app" for app
    proof
      assume "app \<in> set upgrades"
      with listed obtain kv where kv: "kv \<in> set (target_item_map self)"
        and latest: "latest_version (snd kv) \<noteq> ''''"
        and c: "plugin_cache s' (t_name (snd kv)) = Some app" by blast
      from inj c app have "t_name (snd kv) = t_name target"
        unfolding cache_inv_def by blast
      with assms(1,2) kv have "snd kv = target"
        by (intro same_target [of self kv key target]) (simp_all add: plugin_inv_def)
      with latest False show False by simp
    qed
    with False show ?thesis by simp
  qed
qed

text \<open>
  Claim C10. In every state the plugin reaches, for a host-class target of the registry:
  whatever the query, if \<^verbatim>\<open>list_apps_async\<close> returns a list, the host's item exists (it
  is in the cache) and is not in the list; \<^verbatim>\<open>list_distro_upgrades_async\<close> returns the
  host's item when the target's latest version is not empty, and does not return it when
  that version is empty.
\<close>

theorem host_item_only_as_upgrade:
  assumes "reachable self"
      and "(key, target) \<in> set (target_item_map self)" and "t_class target = ''host''"
  shows "(\<forall>s' list. list_apps_async self query = (s', Inr list) \<longrightarrow>
            (\<exists>app. plugin_cache s' (t_name target) = Some app \<and> app \<notin> set list)) \<and>
         (\<forall>s' upgrades. list_distro_upgrades_async self = (s', upgrades) \<longrightarrow>
            (if latest_version target \<noteq> ''''
             then (\<exists>app \<in> set upgrades. plugin_cache s' (t_name target) = Some app)
             else (\<forall>app. plugin_cache s' (t_name target) = Some app \<longrightarrow> app \<notin> set upgrades)))"
  using list_apps_excludes_host [OF reachable_inv [OF assms(1)] assms(2,3)]
    list_distro_upgrades_host [OF reachable_inv [OF assms(1)] assms(2,3)]
  by blast
lemma ex_refreshed_items:
  "target_item_map ex_refreshed = [(''app'', ex_app_target), (''host'', ex_host_target)]"
  "plugin_cache ex_refreshed ''host'' = Some 0"
  "plugin_cache ex_refreshed ''app'' = Some 1"
  "n_apps ex_refreshed = 2"
  by (simp_all add: example_defs model_defs ex_host_target_def ex_app_target_def)

lemma ex_refreshed_listings:
  "list_apps_async ex_refreshed (Some ex_query_for_update) = (ex_refreshed, Inr [1])"
  "list_distro_upgrades_async ex_refreshed = (ex_refreshed, [0])"
  by (simp_all add: list_apps_async_def list_distro_upgrades_async_def ex_refreshed_items
        ex_query_for_update_def ex_host_target_def ex_app_target_def
        get_or_create_app_for_target_def gs_app_list_add_def)

theorem host_item_only_as_upgrade_witness:
  "snd (list_apps_async ex_refreshed (Some ex_query_for_update)) = Inr [1] \<and>
   (\<exists>app. plugin_cache (fst (list_apps_async ex_refreshed (Some ex_query_for_update))) ''host'' = Some app \<and>
          app \<notin> set [1]) \<and>
   (\<exists>app \<in> set (snd (list_distro_upgrades_async ex_refreshed)).
      plugin_cache (fst (list_distro_upgrades_async ex_refreshed)) ''host'' = Some app)"
proof -
  have m: "(''host'', ex_host_target) \<in> set (target_item_map ex_refreshed)"
    by (simp add: ex_refreshed_items)
  have c: "t_class ex_host_target = ''host''" and n: "t_name ex_host_target = ''host''"
    and l: "latest_version ex_host_target \<noteq> ''''"
    by (simp_all add: ex_host_target_def)
  from host_item_only_as_upgrade [OF reachable_examples(2) m c, of "Some ex_query_for_update"]
  show ?thesis
    by (simp add: ex_refreshed_listings n l)
qed

section \<open>Applying a removal\<close>

lemma ex_active_job: "job_task_map ex_active = [(''/job/1'', 0)]"
  by (simp add: example_defs model_defs)

lemma ex_active_no_removal: "job_to_remove_status_map ex_active = Map.empty"
  by (simp add: example_defs model_defs)

lemma ex_active_task_app: "ut_app (update_target_tasks ex_active 0) = 1"
  by (simp add: example_defs model_defs)

text \<open>
  The claim as it stands, that the pending update resolves with success if and only if
  the status is 0, fails when the caller has cancelled: the job of \<open>ex_active\<close> is
  cancelled by the caller and then reported removed with status 0. The removal is
  applied, the item is \<open>Installed\<close> and the task returns \<^verbatim>\<open>TRUE\<close>, yet the operation
  resolves with the cancellation.
\<close>

theorem remove_job_resolves_cancelled:
  "map_of (job_task_map (run ex_active [Cancel_Requested 0])) ''/job/1'' = Some 0 \<and>
   reachable (run ex_active [Cancel_Requested 0]) \<and>
   app_state (app_store (remove_job (run ex_active [Cancel_Requested 0]) ''/job/1'' 0) 1) =
     GS_APP_STATE_INSTALLED \<and>
   ut_returned (update_target_tasks (remove_job (run ex_active [Cancel_Requested 0]) ''/job/1'' 0) 0) =
     [Inr ()] \<and>
   update_target_finish (remove_job (run ex_active [Cancel_Requested 0]) ''/job/1'' 0) 0 =
     Some (Inl G_IO_ERROR_CANCELLED)"
proof -
  have "reachable (run ex_active [Cancel_Requested 0])"
    using reachable_examples(4) by (rule reachable_run)
  then show ?thesis
    by (simp add: example_defs model_defs)
qed

text \<open>
  Claim C2, amended. A job-removed notification for a job path in the active-job table is
  applied at once: the item of the job's task goes to \<open>PendingInstall\<close> (host, status 0),
  \<open>Installed\<close> (not host, status 0), \<open>Available\<close> (host, other status) or back to its
  last stable state (not host, other status); the entry leaves the active-job table; the
  update task returns \<^verbatim>\<open>TRUE\<close> for status 0 and the failure with the status otherwise.
  The pending update resolves with the cancellation when the caller's cancellable is
  cancelled, and with the first value the task has returned otherwise: this one, when
  the task had not returned before. This holds in every state the plugin reaches.
\<close>

theorem remove_job_applies:
  assumes "map_of (job_task_map self) job_path = Some task"
      and "reachable self"
  shows "let data = update_target_tasks self task;
             app = ut_app data;
             host = (gs_app_get_metadata_item (app_store self app) ''SystemdSysupdated::Class'' = Some ''host'');
             outcome = (if job_status = 0 then Inr () else Inl (Update_Failed_Status job_status));
             s' = remove_job self job_path job_status
         in app_state (app_store s' app) =
              (if job_status = 0
               then (if host then GS_APP_STATE_PENDING_INSTALL else GS_APP_STATE_INSTALLED)
               else (if host then GS_APP_STATE_AVAILABLE else app_state_recover (app_store self app))) \<and>
            map_of (job_task_map s') job_path = None \<and>
            ut_returned (update_target_tasks s' task) = ut_returned data @ [outcome] \<and>
            update_target_finish s' task =
              Some (if g_cancellable_is_cancelled self (ut_cancellable data) then Inl G_IO_ERROR_CANCELLED
                    else if ut_returned data = [] then outcome
                    else hd (ut_returned data))"
proof -
  from assms(1) have "job_path \<in> fst ` set (job_task_map self)"
    by (metis map_of_eq_None_iff option.distinct(1))
  with reachable_inv [OF assms(2)] have none: "job_to_remove_status_map self job_path = None"
    by (auto simp: plugin_inv_def job_tables_inv_def)
  show ?thesis
    using assms(1) none
    by (cases "ut_returned (update_target_tasks self task)")
       (simp_all add: remove_job_def remove_job_apply_def Let_def app_update_def cancel_job_revoke_def
          update_target_return_def update_target_data_update_def gs_app_set_state_def
          gs_app_set_progress_def gs_app_set_state_recover_def delete_conv'
          update_target_finish_def g_cancellable_is_cancelled_def
          split: option.splits)
qed

theorem remove_job_applies_witness:
  "app_state (app_store (remove_job ex_active ''/job/1'' 0) 1) = GS_APP_STATE_INSTALLED \<and>
   map_of (job_task_map (remove_job ex_active ''/job/1'' 0)) ''/job/1'' = None \<and>
   ut_returned (update_target_tasks (remove_job ex_active ''/job/1'' 0) 0) = [Inr ()] \<and>
   update_target_finish (remove_job ex_active ''/job/1'' 0) 0 = Some (Inr ())"
proof -
  have a: "map_of (job_task_map ex_active) ''/job/1'' = Some 0"
    by (simp add: ex_active_job)
  have b: "reachable ex_active"
    by (rule reachable_examples)
  have c: "gs_app_get_metadata_item (app_store ex_active (Suc 0)) ''SystemdSysupdated::Class'' = Some ''component''"
    by (simp add: example_defs model_defs)
  have d: "ut_returned (update_target_tasks ex_active 0) = []"
    by (simp add: example_defs model_defs)
  have e: "\<not> g_cancellable_is_cancelled ex_active (ut_cancellable (update_target_tasks ex_active 0))"
    by (simp add: example_defs model_defs)
  show ?thesis
    using remove_job_applies [OF a b, of 0] by (simp add: Let_def ex_active_task_app c d e)
qed

section \<open>Purging a target, and the listing after it\<close>

lemma purged_item_not_listed:
  assumes "plugin_inv self"
      and "name \<in> fst ` set (target_item_map self)" and "name \<notin> listed_names listing"
      and "plugin_cache self name = Some app"
      and "list_apps_async (refresh_metadata_list_targets_cb self task (Inr listing)) query = (s2, Inr list)"
  shows "app \<notin> set list"
proof
  let ?s1 = "refresh_metadata_list_targets_cb self task (Inr listing)"
  assume listed: "app \<in> set list"
  from assms(1) have d: "distinct (map fst (target_item_map self))"
    and c: "cache_inv self"
    by (simp_all add: plugin_inv_def targets_inv_def)
  from assms(5) obtain q where loop: "list_apps_loop q (target_item_map ?s1) ?s1 [] = (s2, list)"
    by (auto simp: list_apps_async_def split: option.splits if_splits prod.splits)
  from list_apps_loop_props [OF loop] listed have grow: "items_grow ?s1 s2"
    and "\<exists>kv \<in> set (target_item_map ?s1). plugin_cache s2 (t_name (snd kv)) = Some app"
    by auto
  then obtain k where "plugin_cache s2 k = Some app" by blast
  with grow have "plugin_cache ?s1 k = Some app \<or> n_apps ?s1 \<le> app"
    by (auto simp: items_grow_def)
  moreover have "app < n_apps ?s1"
    using c assms(4) by (auto simp: cache_inv_def replace_snapshot(5) [OF d])
  ultimately have k1: "plugin_cache ?s1 k = Some app" by simp
  then have k0: "plugin_cache self k = Some app"
    by (simp add: replace_snapshot(4) [OF d] split: if_splits)
  with c assms(4) have "k = name" unfolding cache_inv_def by blast
  with k1 assms(2,3) show False
    by (simp add: replace_snapshot(4) [OF d])
qed

text \<open>
  Claim C6. In every state the plugin reaches, the reply to \<^verbatim>\<open>ListTargets\<close> leaves a
  table with exactly one entry per listed name, each a new entry made from a listed
  tuple, valid, with empty current and latest versions (nothing of an earlier entry
  survives). A target of the old table that is not listed is gone from the table, the
  cache has no item under its name, and the item it had in the cache is in no list a
  later \<^verbatim>\<open>list_apps_async\<close> returns.
\<close>

theorem replace_snapshot_round_trip:
  assumes "reachable self"
  shows "let s1 = refresh_metadata_list_targets_cb self task (Inr listing) in
           fst ` set (target_item_map s1) = listed_names listing \<and>
           distinct (map fst (target_item_map s1)) \<and>
           (\<forall>kv \<in> set (target_item_map s1).
              (\<exists>cls path. (cls, fst kv, path) \<in> set listing \<and>
                 snd kv = target_item_new cls (fst kv) path) \<and>
              is_valid (snd kv) \<and> current_version (snd kv) = '''' \<and> latest_version (snd kv) = '''') \<and>
           (\<forall>name \<in> fst ` set (target_item_map self) - listed_names listing.
              name \<notin> fst ` set (target_item_map s1) \<and>
              plugin_cache s1 name = None \<and>
              (\<forall>app query s2 list.
                 plugin_cache self name = Some app \<longrightarrow>
                 list_apps_async s1 query = (s2, Inr list) \<longrightarrow> app \<notin> set list))"
proof -
  let ?s1 = "refresh_metadata_list_targets_cb self task (Inr listing)"
  from reachable_inv [OF assms] have inv: "plugin_inv self" .
  then have d: "distinct (map fst (target_item_map self))"
    by (simp add: plugin_inv_def targets_inv_def)
  have keys: "fst ` set (target_item_map ?s1) = listed_names listing"
    by (rule replace_snapshot(3) [OF d])
  have dist: "distinct (map fst (target_item_map ?s1))"
    by (rule replace_snapshot(1) [OF d])
  have fresh: "(\<exists>cls path. (cls, fst kv, path) \<in> set listing \<and>
                 snd kv = target_item_new cls (fst kv) path) \<and>
               is_valid (snd kv) \<and> current_version (snd kv) = '''' \<and> latest_version (snd kv) = ''''"
    if "kv \<in> set (target_item_map ?s1)" for kv
  proof -
    from that have "(fst kv, snd kv) \<in> set (target_item_map ?s1)" by simp
    from replace_snapshot(2) [OF d this] obtain cls path
      where "(cls, fst kv, path) \<in> set listing" and "snd kv = target_item_new cls (fst kv) path"
      by blast
    then show ?thesis
      by (auto simp: target_item_new_def)
  qed
  have purged: "name \<notin> fst ` set (target_item_map ?s1) \<and>
                plugin_cache ?s1 name = None \<and>
                (\<forall>app query s2 list.
                   plugin_cache self name = Some app \<longrightarrow>
                   list_apps_async ?s1 query = (s2, Inr list) \<longrightarrow> app \<notin> set list)"
    if "name \<in> fst ` set (target_item_map self) - listed_names listing" for name
  proof -
    from that have old: "name \<in> fst ` set (target_item_map self)"
      and gone: "name \<notin> listed_names listing" by auto
    from gone keys have "name \<notin> fst ` set (target_item_map ?s1)" by simp
    moreover from old gone have "plugin_cache ?s1 name = None"
      by (simp add: replace_snapshot(4) [OF d])
    moreover have "app \<notin> set list"
      if "plugin_cache self name = Some app" and "list_apps_async ?s1 query = (s2, Inr list)"
      for app query s2 list
      using purged_item_not_listed [OF inv old gone that] .
    ultimately show ?thesis by blast
  qed
  have A: "\<forall>kv \<in> set (target_item_map ?s1).
              (\<exists>cls path. (cls, fst kv, path) \<in> set listing \<and>
                 snd kv = target_item_new cls (fst kv) path) \<and>
              is_valid (snd kv) \<and> current_version (snd kv) = [] \<and> latest_version (snd kv) = []"
    using fresh by (intro ballI)
  have B: "\<forall>name \<in> fst ` set (target_item_map self) - listed_names listing.
              name \<notin> fst ` set (target_item_map ?s1) \<and>
              plugin_cache ?s1 name = None \<and>
              (\<forall>app query s2 list.
                 plugin_cache self name = Some app \<longrightarrow>
                 list_apps_async ?s1 query = (s2, Inr list) \<longrightarrow> app \<notin> set list)"
    using purged by (intro ballI)
  show ?thesis
    unfolding Let_def by (rule conjI [OF keys conjI [OF dist conjI [OF A B]]])
qed
theorem replace_snapshot_round_trip_witness:
  "plugin_cache ex_refreshed ''app'' = Some 1 \<and>
   fst ` set (target_item_map
     (refresh_metadata_list_targets_cb ex_refreshed 0 (Inr [(''host'', ''host'', ''/t/host'')]))) =
     {''host''} \<and>
   plugin_cache
     (refresh_metadata_list_targets_cb ex_refreshed 0 (Inr [(''host'', ''host'', ''/t/host'')]))
     ''app'' = None"
proof -
  let ?listing = "[(''host'', ''host'', ''/t/host'')]"
  let ?s1 = "refresh_metadata_list_targets_cb ex_refreshed 0 (Inr ?listing)"
  note t = replace_snapshot_round_trip [OF reachable_examples(2), of 0 ?listing, unfolded Let_def]
  have names: "listed_names ?listing = {''host''}"
    by (simp add: listed_names_def)
  have old: "''app'' \<in> fst ` set (target_item_map ex_refreshed) - listed_names ?listing"
    unfolding names by (simp add: ex_refreshed_items)
  note keys = t [THEN conjunct1]
  note purged = bspec [OF t [THEN conjunct2, THEN conjunct2, THEN conjunct2] old]
  note gone = purged [THEN conjunct2, THEN conjunct1]
  have cached: "plugin_cache ex_refreshed ''app'' = Some 1"
    by (simp add: ex_refreshed_items)
  show ?thesis
    using cached keys [unfolded names] gone by (intro conjI)
qed

section \<open>Events of a job leave the batches alone\<close>

















section \<open>The failing batch of the example\<close>


section \<open>A refresh and a listing leave the batches alone\<close>







section \<open>What the batch driver changes\<close>






section \<open>One update at a time\<close>












section \<open>An item no update is under way for\<close>





section \<open>The first error ends the batch\<close>







section \<open>The batch update driver fails fast\<close>



end
